theory Spec2Isabelle
  imports Main
begin

section \<open>AllVideoSaver backend (app.py)\<close>

text \<open>
  Python strings are modelled as \<^typ>\<open>string\<close>, one \<^typ>\<open>char\<close> per character of the
  Python string (characters with code points below 256), so \<^const>\<open>length\<close> is Python's
  \<open>len\<close> and \<^const>\<open>take\<close> is the slice \<open>s[:n]\<close>. Python integers are \<^typ>\<open>int\<close>.
  A dictionary value that may be missing is an \<^typ>\<open>'a option\<close>. A raised exception (an
  instance of Python's class \<open>Exception\<close>, which \<open>except Exception\<close> catches) is a value
  of type \<open>exn\<close>, carrying its class name and the text \<open>str(e)\<close> returns; a function
  that can raise returns \<open>exn + 'a\<close>.
\<close>

datatype exn = Exception (exn_class: string) (exn_str: string)

subsection \<open>Built-in string and integer operations used by the code\<close>

text \<open>\<open>s.replace(old, new)\<close> for single characters \<open>old\<close> and \<open>new\<close>.\<close>

definition replace_char :: "char \<Rightarrow> char \<Rightarrow> string \<Rightarrow> string" where
  "replace_char old new s = map (\<lambda>c. if c = old then new else c) s"

text \<open>\<open>s.replace(c, '')\<close> for a single character \<open>c\<close>.\<close>

definition remove_char :: "char \<Rightarrow> string \<Rightarrow> string" where
  "remove_char c s = filter (\<lambda>x. x \<noteq> c) s"

text \<open>\<open>str(n)\<close> and the f-string field \<open>{n}\<close> for an integer: decimal digits, with a
  leading minus sign for a negative number.\<close>

definition digit_char :: "nat \<Rightarrow> char" where
  "digit_char d = ''0123456789'' ! d"

fun str_nat :: "nat \<Rightarrow> string" where
  "str_nat n = (if n < 10 then [digit_char n]
                else str_nat (n div 10) @ [digit_char (n mod 10)])"

declare str_nat.simps [simp del]

definition str_int :: "int \<Rightarrow> string" where
  "str_int i = (if i < 0 then CHR ''-'' # str_nat (nat (- i)) else str_nat (nat i))"

text \<open>The f-string field \<open>{n:02d}\<close>: sign-aware zero padding to a minimum width of 2.\<close>

definition format_02d :: "int \<Rightarrow> string" where
  "format_02d i =
     (if i < 0
      then CHR ''-'' # replicate (1 - length (str_nat (nat (- i)))) CHR ''0'' @ str_nat (nat (- i))
      else replicate (2 - length (str_nat (nat i))) CHR ''0'' @ str_nat (nat i))"

text \<open>
  \<open>int(s)\<close> on an optional sign followed by decimal digits; anything else raises
  \<open>ValueError\<close>. (Python also accepts surrounding whitespace and underscores between
  digits; the code only ever passes the text of \<open>str(n)\<close>.)
\<close>

definition digit_val :: "char \<Rightarrow> nat option" where
  "digit_val c = map_of (zip ''0123456789'' [0 ..< 10]) c"

fun parse_digits :: "nat \<Rightarrow> string \<Rightarrow> nat option" where
  "parse_digits acc [] = Some acc"
| "parse_digits acc (c # cs) =
     (case digit_val c of None \<Rightarrow> None | Some d \<Rightarrow> parse_digits (10 * acc + d) cs)"

definition parse_nat :: "string \<Rightarrow> nat option" where
  "parse_nat s = (if s = [] then None else parse_digits 0 s)"

definition py_int :: "string \<Rightarrow> exn + int" where
  "py_int s =
     (case (case s of
              [] \<Rightarrow> None
            | c # cs \<Rightarrow>
                if c = CHR ''-'' then map_option (\<lambda>n. - int n) (parse_nat cs)
                else if c = CHR ''+'' then map_option int (parse_nat cs)
                else map_option int (parse_nat s)) of
        None \<Rightarrow> Inl (Exception ''ValueError''
                 (''invalid literal for int() with base 10: '' @ [CHR 0x27] @ s @ [CHR 0x27]))
      | Some i \<Rightarrow> Inr i)"

text \<open>\<open>s.strip()\<close>: leading and trailing whitespace (\<open>str.isspace\<close>) removed.\<close>

definition isspace :: "char \<Rightarrow> bool" where
  "isspace c = (let n = (of_char c :: nat)
                in (9 \<le> n \<and> n \<le> 13) \<or> (28 \<le> n \<and> n \<le> 32) \<or> n = 133 \<or> n = 160)"

definition strip :: "string \<Rightarrow> string" where
  "strip s = rev (dropWhile isspace (rev (dropWhile isspace s)))"

text \<open>\<open>s.lower()\<close>.\<close>

definition lower_char :: "char \<Rightarrow> char" where
  "lower_char c = (let n = (of_char c :: nat)
                   in if (65 \<le> n \<and> n \<le> 90) \<or> (192 \<le> n \<and> n \<le> 222 \<and> n \<noteq> 215)
                      then char_of (n + 32) else c)"

definition lower :: "string \<Rightarrow> string" where
  "lower s = map lower_char s"

text \<open>\<open>sub in s\<close> for strings.\<close>

fun contains :: "string \<Rightarrow> string \<Rightarrow> bool" where
  "contains sub [] = (sub = [])"
| "contains sub (c # cs) = (take (length sub) (c # cs) = sub \<or> contains sub cs)"

text \<open>\<open>s.rsplit('.', 1)[0]\<close>: the text before the last dot, or all of \<open>s\<close> when it has
  no dot.\<close>

definition rsplit_dot_first :: "string \<Rightarrow> string" where
  "rsplit_dot_first s =
     (if CHR ''.'' \<in> set s then rev (tl (dropWhile (\<lambda>c. c \<noteq> CHR ''.'') (rev s))) else s)"

text \<open>\<open>d.get(key, default)\<close> on the result of the lookup.\<close>

definition get_default :: "'a option \<Rightarrow> 'a \<Rightarrow> 'a" where
  "get_default v d = (case v of None \<Rightarrow> d | Some x \<Rightarrow> x)"

text \<open>
  \<open>sorted(xs, key=key, reverse=True)\<close>: the keys are computed once, in order (the first
  exception raised by \<open>key\<close> is the result), and the sort is stable, elements with equal
  keys keeping their order.
\<close>

fun decorate :: "('a \<Rightarrow> exn + int) \<Rightarrow> 'a list \<Rightarrow> exn + (int \<times> 'a) list" where
  "decorate key [] = Inr []"
| "decorate key (x # xs) =
     (case key x of
        Inl e \<Rightarrow> Inl e
      | Inr k \<Rightarrow> (case decorate key xs of Inl e \<Rightarrow> Inl e | Inr r \<Rightarrow> Inr ((k, x) # r)))"

definition sorted_reverse :: "('a \<Rightarrow> exn + int) \<Rightarrow> 'a list \<Rightarrow> exn + 'a list" where
  "sorted_reverse key xs =
     (case decorate key xs of
        Inl e \<Rightarrow> Inl e
      | Inr kxs \<Rightarrow> Inr (map snd (sort_key (\<lambda>p. - fst p) kxs)))"

subsection \<open>Configuration\<close>

definition DOWNLOAD_FOLDER :: string where
  "DOWNLOAD_FOLDER = ''D:'' @ [CHR 0x5C] @ ''AllVideoSaverTemp''"

definition FFMPEG_PATH :: string where
  "FFMPEG_PATH = ''D:'' @ [CHR 0x5C] @ ''ffmpeg-8.0''"

subsection \<open>sanitize_filename\<close>

definition invalid_chars :: string where
  "invalid_chars = [CHR ''<'', CHR ''>'', CHR '':'', CHR 0x22, CHR ''/'', CHR 0x5C,
                    CHR ''|'', CHR ''?'', CHR ''*'']"

text \<open>
  The loop \<open>for char in invalid_chars: filename = filename.replace(char, '_')\<close>,
  followed by \<open>return filename[:100]\<close>.
\<close>

fun sanitize_loop :: "string \<Rightarrow> string \<Rightarrow> string" where
  "sanitize_loop [] filename = filename"
| "sanitize_loop (char # rest) filename =
     sanitize_loop rest (replace_char char (CHR ''_'') filename)"

definition sanitize_filename :: "string \<Rightarrow> string" where
  "sanitize_filename filename = take 100 (sanitize_loop invalid_chars filename)"

subsection \<open>format_duration\<close>

text \<open>The argument is \<open>None\<close> or an integer; \<open>not seconds\<close> holds for \<open>None\<close> and \<open>0\<close>.\<close>

definition format_duration :: "int option \<Rightarrow> string" where
  "format_duration seconds =
     (case seconds of
        None \<Rightarrow> ''Unknown''
      | Some s \<Rightarrow>
          if s = 0 then ''Unknown''
          else
            let hours = s div 3600;
                minutes = (s mod 3600) div 60;
                seconds = s mod 60
            in if hours \<noteq> 0
               then str_int hours @ '':'' @ format_02d minutes @ '':'' @ format_02d seconds
               else str_int minutes @ '':'' @ format_02d seconds)"

subsection \<open>detect_platform\<close>

definition detect_platform :: "string \<Rightarrow> string" where
  "detect_platform extractor =
     (let extractor_lower = lower extractor
      in if contains ''tiktok'' extractor_lower then ''tiktok''
         else if contains ''youtube'' extractor_lower then ''youtube''
         else if contains ''facebook'' extractor_lower then ''facebook''
         else if contains ''instagram'' extractor_lower then ''instagram''
         else if contains ''twitter'' extractor_lower then ''twitter''
         else extractor_lower)"

subsection \<open>Values of a request body\<close>

text \<open>
  A decoded JSON value, as the Python object \<open>json.loads\<close> gives: \<open>None\<close>, a boolean, an
  integer, a float, a string, a list or a dictionary. The code reads of a float only its
  truth value and its text, so a float is given by whether it is non-zero and by what
  \<open>repr\<close> prints for it. A dictionary is given by its items in order, read with
  \<^const>\<open>map_of\<close>.
\<close>

datatype pyval =
    PyNone
  | PyBool bool
  | PyInt int
  | PyFloat bool string
  | PyStr string
  | PyList "pyval list"
  | PyDict "(string \<times> pyval) list"

text \<open>\<open>type(v).__name__\<close>, as it appears in the messages of \<open>TypeError\<close> and
  \<open>AttributeError\<close>.\<close>

fun type_name :: "pyval \<Rightarrow> string" where
  "type_name PyNone = ''NoneType''"
| "type_name (PyBool b) = ''bool''"
| "type_name (PyInt i) = ''int''"
| "type_name (PyFloat nz t) = ''float''"
| "type_name (PyStr s) = ''str''"
| "type_name (PyList xs) = ''list''"
| "type_name (PyDict kvs) = ''dict''"

text \<open>\<open>bool(v)\<close>, the truth value \<open>not v\<close> negates.\<close>

fun truthy :: "pyval \<Rightarrow> bool" where
  "truthy PyNone = False"
| "truthy (PyBool b) = b"
| "truthy (PyInt i) = (i \<noteq> 0)"
| "truthy (PyFloat nz t) = nz"
| "truthy (PyStr s) = (s \<noteq> [])"
| "truthy (PyList xs) = (xs \<noteq> [])"
| "truthy (PyDict kvs) = (kvs \<noteq> [])"

text \<open>
  \<open>repr(s)\<close> of a string: in single quotes, or in double quotes when the string has a
  single quote and no double quote; the quote character and the backslash are escaped with
  a backslash, tab, newline and carriage return are written \<open>\t\<close>, \<open>\n\<close>, \<open>\r\<close>, and any
  other non-printable character \<open>\xhh\<close>.
\<close>

definition hex_digit :: "nat \<Rightarrow> char" where
  "hex_digit d = ''0123456789abcdef'' ! d"

definition repr_char :: "char \<Rightarrow> char \<Rightarrow> string" where
  "repr_char q c =
     (let n = (of_char c :: nat)
      in if c = q then [CHR 0x5C, c]
         else if c = CHR 0x5C then [CHR 0x5C, c]
         else if n = 9 then [CHR 0x5C, CHR ''t'']
         else if n = 10 then [CHR 0x5C, CHR ''n'']
         else if n = 13 then [CHR 0x5C, CHR ''r'']
         else if n < 32 then [CHR 0x5C, CHR ''x'', hex_digit (n div 16), hex_digit (n mod 16)]
         else if n = 173 then [CHR 0x5C, CHR ''x'', hex_digit (n div 16), hex_digit (n mod 16)]
         else if 127 \<le> n \<and> n \<le> 160
           then [CHR 0x5C, CHR ''x'', hex_digit (n div 16), hex_digit (n mod 16)]
         else [c])"

definition repr_str :: "string \<Rightarrow> string" where
  "repr_str s =
     (let q = (if CHR 0x27 \<in> set s \<and> CHR 0x22 \<notin> set s then CHR 0x22 else CHR 0x27)
      in q # concat (map (repr_char q) s) @ [q])"

text \<open>\<open>', '.join(parts)\<close>.\<close>

fun join_comma :: "string list \<Rightarrow> string" where
  "join_comma [] = []"
| "join_comma [a] = a"
| "join_comma (a # b # rest) = a @ '', '' @ join_comma (b # rest)"

text \<open>\<open>repr(v)\<close>, and \<open>str(v)\<close>, which an f-string field \<open>{v}\<close> inserts: the string itself
  for a string, \<open>repr(v)\<close> for every other value.\<close>

fun py_repr :: "pyval \<Rightarrow> string"
  and repr_list :: "pyval list \<Rightarrow> string list"
  and repr_items :: "(string \<times> pyval) list \<Rightarrow> string list" where
  "py_repr PyNone = ''None''"
| "py_repr (PyBool b) = (if b then ''True'' else ''False'')"
| "py_repr (PyInt i) = str_int i"
| "py_repr (PyFloat nz t) = t"
| "py_repr (PyStr s) = repr_str s"
| "py_repr (PyList xs) = ''['' @ join_comma (repr_list xs) @ '']''"
| "py_repr (PyDict kvs) = ''{'' @ join_comma (repr_items kvs) @ ''}''"
| "repr_list [] = []"
| "repr_list (x # xs) = py_repr x # repr_list xs"
| "repr_items [] = []"
| "repr_items ((k, v) # kvs) = (repr_str k @ '': '' @ py_repr v) # repr_items kvs"

definition py_str :: "pyval \<Rightarrow> string" where
  "py_str v = (case v of PyStr s \<Rightarrow> s | _ \<Rightarrow> py_repr v)"

text \<open>\<open>key in v\<close> for a string \<open>key\<close>: a key of a dictionary, a substring of a string,
  an element of a list; the other values are not iterable.\<close>

fun py_in :: "string \<Rightarrow> pyval \<Rightarrow> exn + bool" where
  "py_in key (PyDict kvs) = Inr (map_of kvs key \<noteq> None)"
| "py_in key (PyStr s) = Inr (contains key s)"
| "py_in key (PyList xs) = Inr (PyStr key \<in> set xs)"
| "py_in key v =
     Inl (Exception ''TypeError''
            (''argument of type '' @ [CHR 0x27] @ type_name v @ [CHR 0x27] @ '' is not iterable''))"

text \<open>\<open>v[key]\<close> for a string \<open>key\<close>.\<close>

fun py_getitem :: "pyval \<Rightarrow> string \<Rightarrow> exn + pyval" where
  "py_getitem (PyDict kvs) key =
     (case map_of kvs key of
        None \<Rightarrow> Inl (Exception ''KeyError'' (repr_str key))
      | Some v \<Rightarrow> Inr v)"
| "py_getitem (PyStr s) key =
     Inl (Exception ''TypeError''
            (''string indices must be integers, not '' @ [CHR 0x27] @ ''str'' @ [CHR 0x27]))"
| "py_getitem (PyList xs) key =
     Inl (Exception ''TypeError'' ''list indices must be integers or slices, not str'')"
| "py_getitem v key =
     Inl (Exception ''TypeError''
            ([CHR 0x27] @ type_name v @ [CHR 0x27] @ '' object is not subscriptable''))"

text \<open>\<open>v.strip()\<close> and \<open>v.get(key, default)\<close>: only a string has the first method, only
  a dictionary the second.\<close>

definition no_attribute :: "pyval \<Rightarrow> string \<Rightarrow> exn" where
  "no_attribute v name =
     Exception ''AttributeError''
       ([CHR 0x27] @ type_name v @ [CHR 0x27] @ '' object has no attribute ''
        @ [CHR 0x27] @ name @ [CHR 0x27])"

definition method_strip :: "pyval \<Rightarrow> exn + string" where
  "method_strip v = (case v of PyStr s \<Rightarrow> Inr (strip s) | _ \<Rightarrow> Inl (no_attribute v ''strip''))"

definition method_get :: "pyval \<Rightarrow> string \<Rightarrow> pyval \<Rightarrow> exn + pyval" where
  "method_get v key dflt =
     (case v of
        PyDict kvs \<Rightarrow> Inr (get_default (map_of kvs key) dflt)
      | _ \<Rightarrow> Inl (no_attribute v ''get''))"

subsection \<open>get_format_selector\<close>

definition get_format_selector :: "pyval \<Rightarrow> string" where
  "get_format_selector quality =
     (if quality = PyStr ''audio'' then ''bestaudio/best''
      else if quality = PyStr ''360'' then ''best[height<=360]/best''
      else if quality = PyStr ''720'' then ''best[height<=720]/best''
      else if quality = PyStr ''1080'' then ''best[height<=1080]/best''
      else ''bestvideo+bestaudio/best'')"

subsection \<open>get_available_formats\<close>

text \<open>
  An entry of \<open>info['formats']\<close> with the four keys the code reads (\<open>None\<close>: the key is
  missing, or for \<open>height\<close> and \<open>filesize\<close> also present with the value \<open>None\<close>), the
  dictionary the function builds for each kept entry, and the metadata dictionary with
  the keys the handlers read.
\<close>

record fmt =
  height :: "int option"
  format_note :: "string option"
  ext :: "string option"
  filesize :: "int option"

record format_entry =
  quality :: string
  entry_format_note :: string
  entry_ext :: string
  entry_filesize :: "int option"

record info =
  title :: "string option"
  duration :: "int option"
  thumbnail :: "string option"
  extractor :: "string option"
  formats :: "fmt list option"

definition make_entry :: "fmt \<Rightarrow> int \<Rightarrow> format_entry" where
  "make_entry f h =
     \<lparr> quality = str_int h @ ''p'',
       entry_format_note = get_default (format_note f) '''',
       entry_ext = get_default (ext f) '''',
       entry_filesize = filesize f \<rparr>"

text \<open>The first loop: \<open>fmt.get('height')\<close> is true for an integer other than 0.\<close>

fun collect_formats :: "fmt list \<Rightarrow> format_entry list \<Rightarrow> format_entry list" where
  "collect_formats [] formats_list = formats_list"
| "collect_formats (f # rest) formats_list =
     collect_formats rest
       (case height f of
          None \<Rightarrow> formats_list
        | Some h \<Rightarrow> if h \<noteq> 0 then formats_list @ [make_entry f h] else formats_list)"

text \<open>The second loop, with the set \<open>seen\<close> and the list \<open>unique_formats\<close>.\<close>

fun unique_loop ::
  "format_entry list \<Rightarrow> string set \<Rightarrow> format_entry list \<Rightarrow> format_entry list" where
  "unique_loop [] seen unique_formats = unique_formats"
| "unique_loop (f # rest) seen unique_formats =
     (if quality f \<notin> seen
      then unique_loop rest (insert (quality f) seen) (unique_formats @ [f])
      else unique_loop rest seen unique_formats)"

definition get_available_formats :: "info \<Rightarrow> exn + format_entry list" where
  "get_available_formats info =
     (let formats_list =
            (case formats info of None \<Rightarrow> [] | Some fs \<Rightarrow> collect_formats fs []);
          unique_formats = unique_loop formats_list {} []
      in sorted_reverse (\<lambda>x. py_int (remove_char CHR ''p'' (quality x))) unique_formats)"

subsection \<open>The external collaborators and the effects of a handler\<close>

text \<open>
  The request, as far as \<open>request.get_json()\<close> reads it: whether its content type is JSON
  (Flask's \<open>request.is_json\<close>), and the value \<open>json.loads\<close> gives for its body, \<open>None\<close>
  when the body is not valid JSON, as an empty body is.
\<close>

record request =
  is_json :: bool
  json_body :: "pyval option"

text \<open>
  \<open>request.get_json()\<close> with no arguments (Flask 2.1 and later): it raises werkzeug's
  \<open>UnsupportedMediaType\<close> (status 415) when the content type is not JSON, and \<open>BadRequest\<close>
  (status 400) when the body does not decode. Both are subclasses of \<open>Exception\<close>. Flask
  answers an exception that leaves a view function with an HTML error page, of the
  exception's status for these two and of status 500 for any other exception.
\<close>

definition UnsupportedMediaType :: exn where
  "UnsupportedMediaType =
     Exception ''UnsupportedMediaType''
       (''415 Unsupported Media Type: Did not attempt to load JSON data because the request ''
        @ ''Content-Type was not '' @ [CHR 0x27] @ ''application/json'' @ [CHR 0x27] @ ''.'')"

definition BadRequest :: exn where
  "BadRequest =
     Exception ''BadRequest''
       ''400 Bad Request: The browser (or proxy) sent a request that this server could not understand.''"

definition get_json :: "request \<Rightarrow> exn + pyval" where
  "get_json request =
     (if is_json request
      then (case json_body request of None \<Rightarrow> Inl BadRequest | Some v \<Rightarrow> Inr v)
      else Inl UnsupportedMediaType)"

text \<open>
  The options dictionary handed to \<open>yt_dlp.YoutubeDL\<close>, as an association list.
\<close>

datatype opt_value = OBool bool | OStr string | ODicts "(string \<times> string) list list"

type_synonym ydl_opts = "(string \<times> opt_value) list"

text \<open>
  What is outside the repository is a parameter of the model:
  \<^item> \<open>extract_info opts url download\<close> is the outcome of
    \<open>with yt_dlp.YoutubeDL(opts) as ydl: ydl.extract_info(url, download=download)\<close>, either
    the exception it raises or the metadata dictionary;
  \<^item> \<open>prepare_filename opts info\<close> is the outcome of \<open>ydl.prepare_filename(info)\<close>;
  \<^item> \<open>send_file_raises path\<close> is the exception Flask's \<open>send_file\<close> raises for the path
    (the file is missing, say), if any;
  \<^item> \<open>uuid4_hex\<close> is the value of \<open>uuid.uuid4().hex\<close> in this request;
  \<^item> \<open>os_sep\<close> is the separator \<open>os.path.join\<close> puts between the folder and the file name;
  \<^item> \<open>os_path_exists path\<close> is the value of \<open>os.path.exists(path)\<close> and \<open>os_remove path\<close>
    the exception \<open>os.remove(path)\<close> raises, if any, when the clean-up thread runs.
\<close>

record env =
  extract_info :: "ydl_opts \<Rightarrow> string \<Rightarrow> bool \<Rightarrow> exn + info"
  prepare_filename :: "ydl_opts \<Rightarrow> info \<Rightarrow> exn + string"
  send_file_raises :: "string \<Rightarrow> exn option"
  uuid4_hex :: string
  os_sep :: string
  os_path_exists :: "string \<Rightarrow> bool"
  os_remove :: "string \<Rightarrow> exn option"

text \<open>
  The effects of a handler, in the order they happen: a call into the extraction library,
  a log line, and the start of the clean-up thread for a path with its delay in seconds.
\<close>

datatype event =
    ExtractInfo ydl_opts string bool
  | LogInfo string
  | LogError string
  | StartCleanupThread string nat

text \<open>A JSON value of a response body, and the two kinds of response: \<open>jsonify(body)\<close>
  with a status, and \<open>send_file(path, as_attachment, download_name, mimetype)\<close>.\<close>

datatype jval = JNull | JInt int | JStr string | JArr "jval list" | JObj "(string \<times> jval) list"

datatype response =
    Json nat "(string \<times> jval) list"
  | SendFile string bool string string

text \<open>
  The result of a handler: the response it returns, or the exception that leaves it, and the
  effects up to that point.
\<close>

type_synonym outcome = "(exn + response) \<times> event list"

text \<open>\<open>return jsonify({'error': msg}), status\<close>.\<close>

definition jsonify_error :: "string \<Rightarrow> nat \<Rightarrow> response" where
  "jsonify_error msg status = Json status [(''error'', JStr msg)]"

text \<open>
  \<open>except Exception as e: logger.error(f"<prefix>{str(e)}"); return jsonify({'error': str(e)}), 500\<close>
  around the outcome of the \<open>try\<close> body.
\<close>

definition except_handler :: "string \<Rightarrow> outcome \<Rightarrow> outcome" where
  "except_handler prefix r =
     (case r of
        (Inl e, evs) \<Rightarrow> (Inr (jsonify_error (exn_str e) 500), evs @ [LogError (prefix @ exn_str e)])
      | (Inr resp, evs) \<Rightarrow> (Inr resp, evs))"

subsection \<open>delayed_cleanup\<close>

text \<open>
  The effects of the clean-up thread: the sleep, an attempt to remove the path, a warning
  in the log.
\<close>

datatype thread_event = Sleep nat | OsRemove string | LogWarning string

text \<open>
  The body of the inner function \<open>_cleanup\<close>, which the thread runs: the \<open>try\<close> body, and
  around it \<open>except Exception as e: logger.warning(f"Could not delete file {path}: {str(e)}")\<close>,
  after \<open>time.sleep(delay)\<close>. The function returns nothing.
\<close>

definition cleanup_try :: "env \<Rightarrow> string \<Rightarrow> (exn + unit) \<times> thread_event list" where
  "cleanup_try env path =
     (if os_path_exists env path
      then (case os_remove env path of
              None \<Rightarrow> (Inr (), [OsRemove path])
            | Some e \<Rightarrow> (Inl e, [OsRemove path]))
      else (Inr (), []))"

definition cleanup :: "env \<Rightarrow> string \<Rightarrow> nat \<Rightarrow> (exn + unit) \<times> thread_event list" where
  "cleanup env path delay =
     (case cleanup_try env path of
        (Inl e, evs) \<Rightarrow>
          (Inr (), Sleep delay # evs
                   @ [LogWarning (''Could not delete file '' @ path @ '': '' @ exn_str e)])
      | (Inr u, evs) \<Rightarrow> (Inr (), Sleep delay # evs))"

text \<open>
  \<open>delayed_cleanup(path, delay=60)\<close>: \<open>threading.Thread(target=_cleanup).start()\<close>. The call
  starts the thread, which will run \<^const>\<open>cleanup\<close> for the path and the delay, and
  returns. The argument is \<open>None\<close> when the caller leaves the delay out.
\<close>

definition delayed_cleanup :: "string \<Rightarrow> nat option \<Rightarrow> event list" where
  "delayed_cleanup path delay = [StartCleanupThread path (get_default delay 60)]"

subsection \<open>fetch_video_info\<close>

definition fetch_ydl_opts :: ydl_opts where
  "fetch_ydl_opts =
     [(''quiet'', OBool True), (''no_warnings'', OBool False), (''extract_flat'', OBool False),
      (''ffmpeg_location'', OStr FFMPEG_PATH)]"

definition entry_json :: "format_entry \<Rightarrow> jval" where
  "entry_json e =
     JObj [(''quality'', JStr (quality e)),
           (''format_note'', JStr (entry_format_note e)),
           (''ext'', JStr (entry_ext e)),
           (''filesize'', (case entry_filesize e of None \<Rightarrow> JNull | Some n \<Rightarrow> JInt n))]"

definition fetch_try :: "env \<Rightarrow> string \<Rightarrow> outcome" where
  "fetch_try env url =
     (case extract_info env fetch_ydl_opts url False of
        Inl e \<Rightarrow> (Inl e, [ExtractInfo fetch_ydl_opts url False])
      | Inr info \<Rightarrow>
          (case get_available_formats info of
             Inl e \<Rightarrow> (Inl e, [ExtractInfo fetch_ydl_opts url False])
           | Inr fl \<Rightarrow>
               (Inr (Json 200
                  [(''title'', JStr (get_default (title info) ''Unknown Title'')),
                   (''duration'', JStr (format_duration (Some (get_default (duration info) 0)))),
                   (''thumbnail'', JStr (get_default (thumbnail info) '''')),
                   (''platform'', JStr (detect_platform (get_default (extractor info) ''''))),
                   (''formats'', JArr (map entry_json fl))]),
                [ExtractInfo fetch_ydl_opts url False,
                 LogInfo (''Fetched info: '' @ get_default (title info) ''Unknown Title'')])))"

text \<open>
  The lines before the \<open>try\<close>, common to both handlers: \<open>data = request.get_json()\<close>, the
  test \<open>not data or 'url' not in data\<close> and \<open>url = data['url'].strip()\<close>. The result is the
  outcome with which the handler ends there (an exception that leaves it, or the response
  for a missing URL), or the dictionary and the stripped URL.
\<close>

definition read_url :: "request \<Rightarrow> outcome + (pyval \<times> string)" where
  "read_url request =
     (case get_json request of
        Inl e \<Rightarrow> Inl (Inl e, [])
      | Inr data \<Rightarrow>
          if truthy data
          then (case py_in ''url'' data of
                  Inl e \<Rightarrow> Inl (Inl e, [])
                | Inr present \<Rightarrow>
                    if present
                    then (case py_getitem data ''url'' of
                            Inl e \<Rightarrow> Inl (Inl e, [])
                          | Inr v \<Rightarrow>
                              (case method_strip v of
                                 Inl e \<Rightarrow> Inl (Inl e, [])
                               | Inr url \<Rightarrow> Inr (data, url)))
                    else Inl (Inr (jsonify_error ''No URL provided'' 400), []))
          else Inl (Inr (jsonify_error ''No URL provided'' 400), []))"

definition fetch_video_info :: "env \<Rightarrow> request \<Rightarrow> outcome" where
  "fetch_video_info env request =
     (case read_url request of
        Inl ended \<Rightarrow> ended
      | Inr (data, url) \<Rightarrow>
          if url = [] then (Inr (jsonify_error ''Empty URL provided'' 400), [])
          else except_handler ''Error fetching info: '' (fetch_try env url))"

subsection \<open>download_video\<close>

definition download_filename :: "env \<Rightarrow> string" where
  "download_filename env = ''allvideosaver_'' @ uuid4_hex env"

definition download_filepath :: "env \<Rightarrow> string" where
  "download_filepath env = DOWNLOAD_FOLDER @ os_sep env @ download_filename env"

definition download_ydl_opts :: "string \<Rightarrow> pyval \<Rightarrow> ydl_opts" where
  "download_ydl_opts filepath q =
     [(''outtmpl'', OStr (filepath @ ''.%(ext)s'')),
      (''format'', OStr (get_format_selector q)),
      (''ffmpeg_location'', OStr FFMPEG_PATH)]
     @ (if q = PyStr ''audio''
        then [(''postprocessors'',
               ODicts [[(''key'', ''FFmpegExtractAudio''), (''preferredcodec'', ''mp3''),
                        (''preferredquality'', ''192'')]])]
        else [])"

definition download_try :: "env \<Rightarrow> string \<Rightarrow> pyval \<Rightarrow> ydl_opts \<Rightarrow> outcome" where
  "download_try env url q opts =
     (case extract_info env opts url True of
        Inl e \<Rightarrow> (Inl e, [ExtractInfo opts url True])
      | Inr info \<Rightarrow>
          (case prepare_filename env opts info of
             Inl e \<Rightarrow> (Inl e, [ExtractInfo opts url True])
           | Inr prepared \<Rightarrow>
               (case title info of
                  None \<Rightarrow> (Inl (Exception ''KeyError'' (repr_str ''title'')),
                            [ExtractInfo opts url True])
                | Some t \<Rightarrow>
                    let downloaded_file =
                          (if q = PyStr ''audio'' then rsplit_dot_first prepared @ ''.mp3''
                           else prepared);
                        download_name =
                          (if q = PyStr ''audio'' then sanitize_filename t @ ''.mp3''
                           else sanitize_filename t @ ''_'' @ py_str q @ ''p.mp4'');
                        evs = [ExtractInfo opts url True, LogInfo (''Downloaded: '' @ t)]
                              @ delayed_cleanup downloaded_file (Some 60)
                    in (case send_file_raises env downloaded_file of
                          Some e \<Rightarrow> (Inl e, evs)
                        | None \<Rightarrow>
                            (Inr (SendFile downloaded_file True download_name
                                    (if q \<noteq> PyStr ''audio'' then ''video/mp4'' else ''audio/mpeg'')),
                             evs)))))"

definition download_video :: "env \<Rightarrow> request \<Rightarrow> outcome" where
  "download_video env request =
     (case read_url request of
        Inl ended \<Rightarrow> ended
      | Inr (data, url) \<Rightarrow>
          (case method_get data ''quality'' (PyStr ''720'') of
             Inl e \<Rightarrow> (Inl e, [])
           | Inr q \<Rightarrow>
               if url = [] then (Inr (jsonify_error ''Empty URL provided'' 400), [])
               else except_handler ''Download error: ''
                      (download_try env url q
                         (download_ydl_opts (download_filepath env) q))))"

subsection \<open>Auxiliary notions for stating the properties\<close>

text \<open>The known (present and non-zero) heights of a formats list, in order.\<close>

fun known_heights :: "fmt list \<Rightarrow> int list" where
  "known_heights [] = []"
| "known_heights (f # fs) =
     (case height f of
        None \<Rightarrow> known_heights fs
      | Some h \<Rightarrow> if h \<noteq> 0 then h # known_heights fs else known_heights fs)"

text \<open>The elements of a list not in \<open>seen\<close>, each kept at its first occurrence only.\<close>

fun first_occurrences :: "'a list \<Rightarrow> 'a set \<Rightarrow> 'a list" where
  "first_occurrences [] seen = []"
| "first_occurrences (x # xs) seen =
     (if x \<in> seen then first_occurrences xs seen
      else x # first_occurrences xs (insert x seen))"

text \<open>The first entry of a formats list with the given height.\<close>

definition first_with_height :: "fmt list \<Rightarrow> int \<Rightarrow> fmt" where
  "first_with_height fs h = the (find (\<lambda>f. height f = Some h) fs)"

text \<open>A request with a JSON content type whose body decodes to the given value.\<close>

definition json_request :: "pyval \<Rightarrow> request" where
  "json_request v = \<lparr> is_json = True, json_body = Some v \<rparr>"

text \<open>The number of removal attempts among the effects of the clean-up thread.\<close>

definition removals :: "thread_event list \<Rightarrow> nat" where
  "removals evs = length (filter (\<lambda>ev. case ev of OsRemove p \<Rightarrow> True | _ \<Rightarrow> False) evs)"

subsection \<open>Concrete inputs\<close>

definition example_fmt :: "int \<Rightarrow> string \<Rightarrow> fmt" where
  "example_fmt h n = \<lparr> height = Some h, format_note = Some n, ext = Some ''mp4'', filesize = None \<rparr>"

definition example_formats :: "fmt list" where
  "example_formats =
     [example_fmt 144 ''tiny'', example_fmt 720 ''first'', example_fmt 720 ''second'',
      example_fmt 1080 ''full'']"

definition example_info :: info where
  "example_info =
     \<lparr> title = Some ''Clip: part 1/2?'', duration = Some 3661, thumbnail = None,
       extractor = Some ''Youtube'', formats = Some example_formats \<rparr>"

definition bare_info :: info where
  "bare_info =
     \<lparr> title = None, duration = None, thumbnail = None, extractor = None, formats = None \<rparr>"

text \<open>A request for the URL \<open>http://x\<close> (with blanks around it) and no quality, and one
  for the same URL with the quality \<open>audio\<close>.\<close>

definition example_request :: request where
  "example_request = json_request (PyDict [(''url'', PyStr '' http://x '')])"

definition audio_request :: request where
  "audio_request =
     json_request (PyDict [(''url'', PyStr ''http://x''), (''quality'', PyStr ''audio'')])"

text \<open>
  An environment in which everything succeeds, and variants of it in which the extraction
  raises, the metadata has no title, \<open>prepare_filename\<close> raises, \<open>send_file\<close> raises, and
  the removal of the file fails.
\<close>

definition example_env :: env where
  "example_env =
     \<lparr> extract_info = (\<lambda>opts url download. Inr example_info),
       prepare_filename =
         (\<lambda>opts info. case map_of opts ''outtmpl'' of
                        Some (OStr t) \<Rightarrow> Inr (take (length t - 7) t @ ''webm'')
                      | _ \<Rightarrow> Inl (Exception ''KeyError'' ''outtmpl'')),
       send_file_raises = (\<lambda>path. None),
       uuid4_hex = ''0123456789abcdef0123456789abcdef'',
       os_sep = [CHR 0x5C],
       os_path_exists = (\<lambda>path. True),
       os_remove = (\<lambda>path. None) \<rparr>"

definition failing_env :: env where
  "failing_env =
     example_env \<lparr> extract_info :=
       (\<lambda>opts url download. Inl (Exception ''DownloadError'' ''Unsupported URL'')) \<rparr>"

definition untitled_env :: env where
  "untitled_env = example_env \<lparr> extract_info := (\<lambda>opts url download. Inr bare_info) \<rparr>"

definition unprepared_env :: env where
  "unprepared_env =
     example_env \<lparr> prepare_filename :=
       (\<lambda>opts info. Inl (Exception ''ValueError'' ''bad template'')) \<rparr>"

definition unsent_env :: env where
  "unsent_env =
     example_env \<lparr> send_file_raises :=
       (\<lambda>path. Some (Exception ''FileNotFoundError'' ''No such file'')) \<rparr>"

definition locked_env :: env where
  "locked_env =
     example_env \<lparr> os_remove :=
       (\<lambda>path. Some (Exception ''PermissionError'' ''WinError 32'')) \<rparr>"

section \<open>Properties\<close>

subsection \<open>Decimal text of integers\<close>

lemma digit_cases: "d < 10 \<Longrightarrow> d \<in> {0, 1, 2, 3, 4, 5, 6, 7, 8, 9::nat}"
  by auto

lemma digit_val_digit_char: "d < 10 \<Longrightarrow> digit_val (digit_char d) = Some d"
  using digit_cases [of d] by (auto simp: digit_val_def digit_char_def upt_rec)

lemma digit_char_in: "d < 10 \<Longrightarrow> digit_char d \<in> set ''0123456789''"
  using digit_cases [of d] by (auto simp: digit_char_def)

lemma parse_digits_append:
  "parse_digits acc (xs @ ys) =
     (case parse_digits acc xs of None \<Rightarrow> None | Some m \<Rightarrow> parse_digits m ys)"
  by (induction xs arbitrary: acc) (auto split: option.splits)

lemma parse_digits_str_nat: "parse_digits 0 (str_nat n) = Some n"
proof (induction n rule: str_nat.induct)
  case (1 n)
  show ?case
  proof (cases "n < 10")
    case True
    then show ?thesis
      by (subst str_nat.simps) (simp add: digit_val_digit_char)
  next
    case False
    then have ih: "parse_digits 0 (str_nat (n div 10)) = Some (n div 10)"
      using 1 by simp
    show ?thesis
      using False
      by (subst str_nat.simps) (simp add: parse_digits_append ih digit_val_digit_char)
  qed
qed

lemma str_nat_nonempty: "str_nat n \<noteq> []"
  by (subst str_nat.simps) simp

lemma str_nat_digits: "set (str_nat n) \<subseteq> set ''0123456789''"
proof (induction n rule: str_nat.induct)
  case (1 n)
  show ?case
  proof (cases "n < 10")
    case True
    then show ?thesis using digit_char_in [of n]
      by (subst str_nat.simps) simp
  next
    case False
    then have "set (str_nat (n div 10)) \<subseteq> set ''0123456789''" using 1 by simp
    moreover have "digit_char (n mod 10) \<in> set ''0123456789''"
      by (rule digit_char_in) simp
    ultimately show ?thesis using False
      by (subst str_nat.simps) simp
  qed
qed

lemma py_int_str_int: "py_int (str_int i) = Inr i"
proof (cases "i < 0")
  case True
  then show ?thesis
    by (simp add: py_int_def str_int_def parse_nat_def str_nat_nonempty parse_digits_str_nat)
next
  case False
  obtain c cs where s: "str_nat (nat i) = c # cs"
    using str_nat_nonempty [of "nat i"] by (cases "str_nat (nat i)") auto
  have "c \<in> set ''0123456789''" using str_nat_digits [of "nat i"] s by auto
  then have "c \<noteq> CHR ''-''" "c \<noteq> CHR ''+''" by auto
  moreover have "parse_nat (c # cs) = Some (nat i)"
    using parse_digits_str_nat [of "nat i"] s by (simp add: parse_nat_def)
  ultimately show ?thesis using False s
    by (simp add: py_int_def str_int_def)
qed

lemma str_int_no_p: "CHR ''p'' \<notin> set (str_int i)"
  using str_nat_digits [of "nat i"] str_nat_digits [of "nat (- i)"]
  by (auto simp: str_int_def)

lemma str_int_inj: "str_int a = str_int b \<Longrightarrow> a = b"
proof -
  assume "str_int a = str_int b"
  then have "py_int (str_int a) = py_int (str_int b)" by simp
  then show "a = b" by (simp add: py_int_str_int)
qed

lemma str_nat_one_digit: "n < 10 \<Longrightarrow> str_nat n = [digit_char n]"
  by (subst str_nat.simps) simp

lemma str_nat_two_digits:
  "10 \<le> n \<Longrightarrow> n < 100 \<Longrightarrow> str_nat n = [digit_char (n div 10), digit_char (n mod 10)]"
  by (subst str_nat.simps) (simp add: str_nat_one_digit)

lemma format_02d_two_digits:
  assumes "0 \<le> i" "i < 100"
  shows "format_02d i = [digit_char (nat i div 10), digit_char (nat i mod 10)]"
proof (cases "i < 10")
  case True
  then have "nat i < 10" "nat i div 10 = 0" using assms by auto
  then show ?thesis using assms
    by (simp add: format_02d_def str_nat_one_digit digit_char_def)
next
  case False
  then have "10 \<le> nat i" "nat i < 100" using assms by auto
  then show ?thesis using assms
    by (simp add: format_02d_def str_nat_two_digits)
qed

subsection \<open>The duration formatter\<close>

lemma minutes_bounds: "0 \<le> (s::int) mod 3600 div 60 \<and> s mod 3600 div 60 < 100"
proof -
  have "s mod 3600 < 3600" by simp
  then have "s mod 3600 \<le> 3599" by simp
  then have "s mod 3600 div 60 \<le> 3599 div 60" by (rule zdiv_mono1) simp
  then show ?thesis by (simp add: pos_imp_zdiv_nonneg_iff)
qed

text \<open>
  C4. The duration formatter returns \<open>Unknown\<close> for \<open>None\<close> and for 0. Otherwise, with
  hours, minutes and seconds computed by integer division, it omits the hour field when
  the hours are zero (the minutes as they are, a colon, the seconds as two digits), and
  when the hours are not zero it gives the hours, then the minutes and the seconds each as
  exactly two digits, separated by colons. In particular 59 gives \<open>0:59\<close> and 3661 gives
  \<open>1:01:01\<close>.
\<close>

theorem format_duration_spec:
  "format_duration None = ''Unknown''
   \<and> format_duration (Some 0) = ''Unknown''
   \<and> (s \<noteq> 0 \<and> s div 3600 = 0 \<longrightarrow>
        format_duration (Some s) =
          str_int (s mod 3600 div 60) @ '':'' @
          [digit_char (nat (s mod 60) div 10), digit_char (nat (s mod 60) mod 10)])
   \<and> (s div 3600 \<noteq> 0 \<longrightarrow>
        format_duration (Some s) =
          str_int (s div 3600) @ '':'' @
          [digit_char (nat (s mod 3600 div 60) div 10), digit_char (nat (s mod 3600 div 60) mod 10)]
          @ '':'' @
          [digit_char (nat (s mod 60) div 10), digit_char (nat (s mod 60) mod 10)])
   \<and> format_duration (Some 59) = ''0:59''
   \<and> format_duration (Some 3661) = ''1:01:01''"
proof -
  have sec: "format_02d (s mod 60)
      = [digit_char (nat (s mod 60) div 10), digit_char (nat (s mod 60) mod 10)]"
    by (rule format_02d_two_digits) simp_all
  have m: "0 \<le> s mod 3600 div 60" "s mod 3600 div 60 < 100"
    using minutes_bounds [of s] by simp_all
  have mins: "format_02d (s mod 3600 div 60)
      = [digit_char (nat (s mod 3600 div 60) div 10), digit_char (nat (s mod 3600 div 60) mod 10)]"
    using m by (rule format_02d_two_digits)
  have a: "format_duration None = ''Unknown''" "format_duration (Some 0) = ''Unknown''"
    by (simp_all add: format_duration_def)
  have b: "s \<noteq> 0 \<and> s div 3600 = 0 \<longrightarrow>
        format_duration (Some s) =
          str_int (s mod 3600 div 60) @ '':'' @
          [digit_char (nat (s mod 60) div 10), digit_char (nat (s mod 60) mod 10)]"
    using sec by (simp add: format_duration_def Let_def)
  have c: "s div 3600 \<noteq> 0 \<longrightarrow>
        format_duration (Some s) =
          str_int (s div 3600) @ '':'' @
          [digit_char (nat (s mod 3600 div 60) div 10), digit_char (nat (s mod 3600 div 60) mod 10)]
          @ '':'' @
          [digit_char (nat (s mod 60) div 10), digit_char (nat (s mod 60) mod 10)]"
  proof
    assume h: "s div 3600 \<noteq> 0"
    then have "s \<noteq> 0" by auto
    with h show "format_duration (Some s) =
          str_int (s div 3600) @ '':'' @
          [digit_char (nat (s mod 3600 div 60) div 10), digit_char (nat (s mod 3600 div 60) mod 10)]
          @ '':'' @
          [digit_char (nat (s mod 60) div 10), digit_char (nat (s mod 60) mod 10)]"
      using sec mins by (simp add: format_duration_def Let_def)
  qed
  have d: "format_duration (Some 59) = ''0:59''"
    by (simp add: format_duration_def str_int_def format_02d_def str_nat.simps digit_char_def)
  have e: "format_duration (Some 3661) = ''1:01:01''"
    by (simp add: format_duration_def str_int_def format_02d_def str_nat.simps digit_char_def Let_def)
  from a b c d e show ?thesis by blast
qed

theorem format_duration_spec_witness:
  "(125::int) \<noteq> 0 \<and> (125::int) div 3600 = 0 \<and> format_duration (Some 125) = ''2:05''
   \<and> (7325::int) div 3600 \<noteq> 0 \<and> format_duration (Some 7325) = ''2:02:05''"
  using format_duration_spec [of 125] format_duration_spec [of 7325]
  by (simp add: str_int_def str_nat.simps digit_char_def)

subsection \<open>The format lister\<close>

lemma quality_make_entry: "quality (make_entry f h) = str_int h @ ''p''"
  by (simp add: make_entry_def)

lemma key_make_entry:
  "py_int (remove_char CHR ''p'' (quality (make_entry f h))) = Inr h"
proof -
  have "filter (\<lambda>x. x \<noteq> CHR ''p'') (str_int h) = str_int h"
    using str_int_no_p [of h] by (auto simp: filter_id_conv)
  then have "remove_char CHR ''p'' (quality (make_entry f h)) = str_int h"
    by (simp add: remove_char_def quality_make_entry)
  then show ?thesis by (simp add: py_int_str_int)
qed

lemma first_occurrences_set: "set (first_occurrences xs S) = set xs - S"
  by (induction xs arbitrary: S) auto

lemma first_occurrences_distinct: "distinct (first_occurrences xs S)"
  by (induction xs arbitrary: S) (auto simp: first_occurrences_set)

lemma known_heights_set:
  "set (known_heights fs) = {h. h \<noteq> 0 \<and> (\<exists>f\<in>set fs. height f = Some h)}"
  by (induction fs) (auto split: option.splits)

lemma collect_formats_acc: "collect_formats fs acc = acc @ collect_formats fs []"
proof (induction fs arbitrary: acc)
  case Nil
  show ?case by simp
next
  case (Cons f fs)
  show ?case
    using Cons.IH [of "acc @ [make_entry f (the (height f))]"]
          Cons.IH [of "[make_entry f (the (height f))]"] Cons.IH [of acc]
    by (auto split: option.splits)
qed

lemma unique_loop_acc: "unique_loop xs seen acc = acc @ unique_loop xs seen []"
proof (induction xs arbitrary: seen acc)
  case Nil
  show ?case by simp
next
  case (Cons x xs)
  show ?case
    using Cons.IH [of "insert (quality x) seen" "acc @ [x]"]
          Cons.IH [of "insert (quality x) seen" "[x]"] Cons.IH [of seen acc]
    by auto
qed

text \<open>The two loops together, started after a prefix whose known heights are \<open>S\<close>.\<close>

lemma unique_collect:
  "unique_loop (collect_formats fs []) ((\<lambda>h. str_int h @ ''p'') ` S) [] =
     map (\<lambda>h. make_entry (first_with_height fs h) h)
         (first_occurrences (known_heights fs) S)"
proof (induction fs arbitrary: S)
  case Nil
  show ?case by simp
next
  case (Cons f fs)
  have skip: "map (\<lambda>h. make_entry (first_with_height (f # fs) h) h)
                (first_occurrences (known_heights fs) T)
            = map (\<lambda>h. make_entry (first_with_height fs h) h)
                (first_occurrences (known_heights fs) T)"
    if "\<forall>h. height f = Some h \<longrightarrow> h = 0 \<or> h \<in> T" for T
  proof (rule map_cong [OF refl])
    fix h assume "h \<in> set (first_occurrences (known_heights fs) T)"
    then have "h \<in> set (known_heights fs)" and "h \<notin> T"
      by (auto simp: first_occurrences_set)
    then have "h \<noteq> 0" by (auto simp: known_heights_set)
    with \<open>h \<notin> T\<close> that have "height f \<noteq> Some h" by auto
    then show "make_entry (first_with_height (f # fs) h) h
             = make_entry (first_with_height fs h) h"
      by (simp add: first_with_height_def)
  qed
  show ?case
  proof (cases "height f")
    case None
    then show ?thesis using Cons.IH [of S] skip [of S] by simp
  next
    case (Some h0)
    show ?thesis
    proof (cases "h0 = 0")
      case True
      then show ?thesis using Some Cons.IH [of S] skip [of S] by simp
    next
      case False
      have cf: "collect_formats (f # fs) [] = make_entry f h0 # collect_formats fs []"
        using Some False collect_formats_acc [of fs "[make_entry f h0]"] by simp
      show ?thesis
      proof (cases "h0 \<in> S")
        case True
        then have "str_int h0 @ ''p'' \<in> (\<lambda>h. str_int h @ ''p'') ` S" by blast
        then show ?thesis
          using cf Some False True Cons.IH [of S] skip [of S]
          by (simp add: quality_make_entry)
      next
        case notin: False
        then have n: "str_int h0 @ ''p'' \<notin> (\<lambda>h. str_int h @ ''p'') ` S"
          using str_int_inj by auto
        have "unique_loop (collect_formats (f # fs) []) ((\<lambda>h. str_int h @ ''p'') ` S) []
            = make_entry f h0 #
              unique_loop (collect_formats fs []) ((\<lambda>h. str_int h @ ''p'') ` insert h0 S) []"
          using cf n
            unique_loop_acc [of "collect_formats fs []"
              "insert (str_int h0 @ ''p'') ((\<lambda>h. str_int h @ ''p'') ` S)" "[make_entry f h0]"]
          by (simp add: quality_make_entry)
        also have "\<dots> = make_entry f h0 #
              map (\<lambda>h. make_entry (first_with_height fs h) h)
                (first_occurrences (known_heights fs) (insert h0 S))"
          using Cons.IH [of "insert h0 S"] by simp
        also have "\<dots> = make_entry (first_with_height (f # fs) h0) h0 #
              map (\<lambda>h. make_entry (first_with_height (f # fs) h) h)
                (first_occurrences (known_heights fs) (insert h0 S))"
          using skip [of "insert h0 S"] Some by (simp add: first_with_height_def)
        finally show ?thesis using Some False notin by simp
      qed
    qed
  qed
qed

lemma decorate_entries:
  "decorate (\<lambda>x. py_int (remove_char CHR ''p'' (quality x))) (map (\<lambda>h. make_entry (g h) h) hs)
     = Inr (map (\<lambda>h. (h, make_entry (g h) h)) hs)"
  by (induction hs) (simp_all add: key_make_entry)

lemma sort_key_map_commute: "sort_key k (map g xs) = map g (sort_key (\<lambda>a. k (g a)) xs)"
proof (induction xs)
  case Nil
  show ?case by simp
next
  case (Cons x xs)
  have ins: "insort_key k (g x) (map g ys) = map g (insort_key (\<lambda>a. k (g a)) x ys)" for ys
    by (induction ys) auto
  show ?case using Cons by (simp add: ins)
qed

lemma sorted_reverse_entries:
  "sorted_reverse (\<lambda>x. py_int (remove_char CHR ''p'' (quality x)))
       (map (\<lambda>h. make_entry (g h) h) hs)
     = Inr (map (\<lambda>h. make_entry (g h) h) (sort_key uminus hs))"
proof -
  have "map snd (sort_key (\<lambda>p. - fst p) (map (\<lambda>h. (h, make_entry (g h) h)) hs))
      = map (\<lambda>h. make_entry (g h) h) (sort_key uminus hs)"
    by (simp add: sort_key_map_commute comp_def)
  then show ?thesis
    by (simp add: sorted_reverse_def decorate_entries)
qed

lemma sorted_desc_strict:
  "distinct hs \<Longrightarrow> sorted_wrt (\<lambda>a b. (b::int) < a) (sort_key uminus hs)"
proof -
  assume d: "distinct hs"
  have s: "sorted (map uminus (sort_key uminus hs))" by (rule sorted_sort_key)
  have dd: "distinct (sort_key uminus hs)" using d by simp
  have gen: "sorted (map uminus ys) \<Longrightarrow> distinct ys \<Longrightarrow> sorted_wrt (\<lambda>a b. (b::int) < a) ys" for ys
    by (induction ys) (auto simp: less_le)
  from gen [OF s dd] show ?thesis .
qed

lemma get_available_formats_Some:
  assumes "formats info = Some fs"
  shows "get_available_formats info =
     Inr (map (\<lambda>h. make_entry (first_with_height fs h) h)
            (sort_key uminus (first_occurrences (known_heights fs) {})))"
  using assms unique_collect [of fs "{}"]
  by (simp add: get_available_formats_def sorted_reverse_entries)

lemma find_first_with_height:
  assumes "\<exists>f\<in>set fs. height f = Some h"
  shows "find (\<lambda>g. height g = Some h) fs = Some (first_with_height fs h)"
proof -
  have "find (\<lambda>g. height g = Some h) fs \<noteq> None"
    using assms by (auto simp: find_None_iff)
  then show ?thesis by (auto simp: first_with_height_def)
qed

text \<open>
  C3. For every metadata dictionary: without a formats list the format lister returns the
  empty list. With a formats list it never raises, and its result is built from pairs of
  an entry \<open>f\<close> and a height \<open>h\<close> such that \<open>h\<close> is a known (present, non-zero)
  height, \<open>f\<close> is the first entry of the list with that height, and the result entry is
  made from \<open>f\<close> with the quality label \<open>{h}p\<close>; the heights of the result are strictly
  decreasing (sorted descending, no label twice), and they are exactly the known heights of
  the list. In particular the heights 144, 720, 720, 1080, the two 720 entries having
  different notes, give the three entries 1080p, 720p, 144p, the 720p one being the
  first seen.
\<close>

theorem get_available_formats_spec:
  "(formats info = None \<longrightarrow> get_available_formats info = Inr [])
   \<and> (\<forall>fs. formats info = Some fs \<longrightarrow>
        (\<exists>ps. get_available_formats info = Inr (map (\<lambda>(f, h). make_entry f h) ps)
            \<and> (\<forall>(f, h) \<in> set ps. h \<noteq> 0 \<and> find (\<lambda>g. height g = Some h) fs = Some f
                   \<and> quality (make_entry f h) = str_int h @ ''p'')
            \<and> sorted_wrt (\<lambda>a b. b < a) (map snd ps)
            \<and> set (map snd ps) = {h. h \<noteq> 0 \<and> (\<exists>f\<in>set fs. height f = Some h)}))
   \<and> map height example_formats = [Some 144, Some 720, Some 720, Some 1080]
   \<and> map format_note example_formats = [Some ''tiny'', Some ''first'', Some ''second'', Some ''full'']
   \<and> get_available_formats example_info =
        Inr [\<lparr> quality = ''1080p'', entry_format_note = ''full'', entry_ext = ''mp4'',
               entry_filesize = None \<rparr>,
             \<lparr> quality = ''720p'', entry_format_note = ''first'', entry_ext = ''mp4'',
               entry_filesize = None \<rparr>,
             \<lparr> quality = ''144p'', entry_format_note = ''tiny'', entry_ext = ''mp4'',
               entry_filesize = None \<rparr>]"
proof -
  have none: "formats info = None \<longrightarrow> get_available_formats info = Inr []"
    by (simp add: get_available_formats_def sorted_reverse_def)
  have some: "\<exists>ps. get_available_formats info = Inr (map (\<lambda>(f, h). make_entry f h) ps)
            \<and> (\<forall>(f, h) \<in> set ps. h \<noteq> 0 \<and> find (\<lambda>g. height g = Some h) fs = Some f
                   \<and> quality (make_entry f h) = str_int h @ ''p'')
            \<and> sorted_wrt (\<lambda>a b. b < a) (map snd ps)
            \<and> set (map snd ps) = {h. h \<noteq> 0 \<and> (\<exists>f\<in>set fs. height f = Some h)}"
    if fs: "formats info = Some fs" for fs
  proof -
    define hs where "hs = sort_key uminus (first_occurrences (known_heights fs) {})"
    define ps where "ps = map (\<lambda>h. (first_with_height fs h, h)) hs"
    have set_hs: "set hs = {h. h \<noteq> 0 \<and> (\<exists>f\<in>set fs. height f = Some h)}"
      by (simp add: hs_def first_occurrences_set known_heights_set)
    have snd_ps: "map snd ps = hs" by (simp add: ps_def comp_def)
    have 1: "get_available_formats info = Inr (map (\<lambda>(f, h). make_entry f h) ps)"
      using get_available_formats_Some [OF fs] by (simp add: ps_def hs_def comp_def)
    have 2: "\<forall>(f, h) \<in> set ps. h \<noteq> 0 \<and> find (\<lambda>g. height g = Some h) fs = Some f
                   \<and> quality (make_entry f h) = str_int h @ ''p''"
      using set_hs find_first_with_height [of fs]
      by (auto simp: ps_def quality_make_entry)
    have 3: "sorted_wrt (\<lambda>a b. b < a) (map snd ps)"
      unfolding snd_ps hs_def by (rule sorted_desc_strict) (rule first_occurrences_distinct)
    have 4: "set (map snd ps) = {h. h \<noteq> 0 \<and> (\<exists>f\<in>set fs. height f = Some h)}"
      unfolding snd_ps by (rule set_hs)
    from 1 2 3 4 show ?thesis by blast
  qed
  have ex1: "map height example_formats = [Some 144, Some 720, Some 720, Some 1080]"
    by (simp add: example_formats_def example_fmt_def)
  have ex2: "map format_note example_formats
      = [Some ''tiny'', Some ''first'', Some ''second'', Some ''full'']"
    by (simp add: example_formats_def example_fmt_def)
  have ex3: "get_available_formats example_info =
        Inr [\<lparr> quality = ''1080p'', entry_format_note = ''full'', entry_ext = ''mp4'',
               entry_filesize = None \<rparr>,
             \<lparr> quality = ''720p'', entry_format_note = ''first'', entry_ext = ''mp4'',
               entry_filesize = None \<rparr>,
             \<lparr> quality = ''144p'', entry_format_note = ''tiny'', entry_ext = ''mp4'',
               entry_filesize = None \<rparr>]"
    by code_simp
  from none some ex1 ex2 ex3 show ?thesis by blast
qed

theorem get_available_formats_spec_witness:
  "formats bare_info = None \<and> get_available_formats bare_info = Inr []
   \<and> formats example_info = Some example_formats
   \<and> (\<exists>ps. get_available_formats example_info = Inr (map (\<lambda>(f, h). make_entry f h) ps)
         \<and> (\<forall>(f, h) \<in> set ps. h \<noteq> 0
                \<and> find (\<lambda>g. height g = Some h) example_formats = Some f
                \<and> quality (make_entry f h) = str_int h @ ''p'')
         \<and> sorted_wrt (\<lambda>a b. b < a) (map snd ps)
         \<and> set (map snd ps) = {h. h \<noteq> 0 \<and> (\<exists>f\<in>set example_formats. height f = Some h)})"
proof -
  have a: "formats bare_info = None" by (simp add: bare_info_def)
  have b: "formats example_info = Some example_formats" by (simp add: example_info_def)
  from get_available_formats_spec [of bare_info] a
  have c: "get_available_formats bare_info = Inr []" by blast
  from get_available_formats_spec [of example_info] b
  have d: "\<exists>ps. get_available_formats example_info = Inr (map (\<lambda>(f, h). make_entry f h) ps)
         \<and> (\<forall>(f, h) \<in> set ps. h \<noteq> 0
                \<and> find (\<lambda>g. height g = Some h) example_formats = Some f
                \<and> quality (make_entry f h) = str_int h @ ''p'')
         \<and> sorted_wrt (\<lambda>a b. b < a) (map snd ps)
         \<and> set (map snd ps) = {h. h \<noteq> 0 \<and> (\<exists>f\<in>set example_formats. height f = Some h)}"
    by blast
  from a b c d show ?thesis by blast
qed

subsection \<open>The format selector\<close>

text \<open>
  C5. The format selector maps the token \<open>audio\<close> to the best-audio expression, each of
  the tokens \<open>360\<close>, \<open>720\<close>, \<open>1080\<close> to the bounded-height expression containing that
  height, and every other value, such as the token \<open>2160\<close>, to the combined
  best-video-plus-best-audio expression.
\<close>

theorem get_format_selector_spec:
  "get_format_selector (PyStr ''audio'') = ''bestaudio/best''
   \<and> (q \<in> {''360'', ''720'', ''1080''} \<longrightarrow>
         get_format_selector (PyStr q) = ''best[height<='' @ q @ '']/best'')
   \<and> (v \<notin> {PyStr ''audio'', PyStr ''360'', PyStr ''720'', PyStr ''1080''} \<longrightarrow>
         get_format_selector v = ''bestvideo+bestaudio/best'')
   \<and> get_format_selector (PyStr ''2160'') = ''bestvideo+bestaudio/best''"
  by (auto simp: get_format_selector_def)

theorem get_format_selector_spec_witness:
  "''360'' \<in> {''360'', ''720'', ''1080''}
   \<and> get_format_selector (PyStr ''360'') = ''best[height<=360]/best''
   \<and> PyStr ''best'' \<notin> {PyStr ''audio'', PyStr ''360'', PyStr ''720'', PyStr ''1080''}
   \<and> get_format_selector (PyStr ''best'') = ''bestvideo+bestaudio/best''"
  using get_format_selector_spec [of "''360''" "PyStr ''best''"]
  by simp

subsection \<open>The filename sanitizer\<close>

lemma sanitize_loop_map:
  "CHR ''_'' \<notin> set cs \<Longrightarrow>
   sanitize_loop cs s = map (\<lambda>c. if c \<in> set cs then CHR ''_'' else c) s"
proof (induction cs arbitrary: s)
  case Nil
  show ?case by simp
next
  case (Cons a cs)
  then have "CHR ''_'' \<noteq> a" and "CHR ''_'' \<notin> set cs" by auto
  then show ?case
    using Cons.IH [of "replace_char a (CHR ''_'') s"]
    by (auto simp: replace_char_def)
qed

lemma invalid_chars_set:
  "set invalid_chars =
     {CHR ''<'', CHR ''>'', CHR '':'', CHR 0x22, CHR ''/'', CHR 0x5C, CHR ''|'', CHR ''?'',
      CHR ''*''}"
  by (simp add: invalid_chars_def)

lemma underscore_valid: "CHR ''_'' \<notin> set invalid_chars"
  by (simp add: invalid_chars_def)

lemma sanitize_filename_map:
  "sanitize_filename s =
     take 100 (map (\<lambda>c. if c \<in> set invalid_chars then CHR ''_'' else c) s)"
  by (simp add: sanitize_filename_def sanitize_loop_map [OF underscore_valid])

text \<open>
  C6. For every input string, the sanitizer replaces every occurrence of each of the nine
  characters \<open><\<close>, \<open>>\<close>, \<open>:\<close>, the double quote, \<open>/\<close>, the backslash, \<open>|\<close>, \<open>?\<close> and
  \<open>*\<close> by an underscore and truncates to 100 characters: the output is the first 100
  characters of the input with exactly these nine characters replaced, its length is the
  minimum of the input length and 100, none of the nine characters occurs in it, and a
  title of 150 characters gives exactly 100 characters.
\<close>

theorem sanitize_filename_spec:
  "sanitize_filename s =
     take 100 (map (\<lambda>c. if c \<in> {CHR ''<'', CHR ''>'', CHR '':'', CHR 0x22, CHR ''/'', CHR 0x5C,
                                  CHR ''|'', CHR ''?'', CHR ''*''}
                          then CHR ''_'' else c) s)
   \<and> length (sanitize_filename s) = min (length s) 100
   \<and> set (sanitize_filename s)
       \<inter> {CHR ''<'', CHR ''>'', CHR '':'', CHR 0x22, CHR ''/'', CHR 0x5C, CHR ''|'', CHR ''?'',
          CHR ''*''} = {}
   \<and> (length s = 150 \<longrightarrow> length (sanitize_filename s) = 100)"
proof -
  let ?bad = "{CHR ''<'', CHR ''>'', CHR '':'', CHR 0x22, CHR ''/'', CHR 0x5C, CHR ''|'',
               CHR ''?'', CHR ''*''}"
  have a: "sanitize_filename s = take 100 (map (\<lambda>c. if c \<in> ?bad then CHR ''_'' else c) s)"
    unfolding sanitize_filename_map invalid_chars_set ..
  have b: "length (sanitize_filename s) = min (length s) 100"
    by (simp add: a min.commute)
  have "set (map (\<lambda>c. if c \<in> ?bad then CHR ''_'' else c) s) \<inter> ?bad = {}"
    by auto
  moreover have "set (sanitize_filename s)
      \<subseteq> set (map (\<lambda>c. if c \<in> ?bad then CHR ''_'' else c) s)"
    unfolding a by (rule set_take_subset)
  ultimately have c: "set (sanitize_filename s) \<inter> ?bad = {}"
    by blast
  from a b c show ?thesis by simp
qed

theorem sanitize_filename_spec_witness:
  "length (replicate 50 CHR ''a''
           @ [CHR ''<'', CHR ''>'', CHR '':'', CHR 0x22, CHR ''/'', CHR 0x5C, CHR ''|'',
              CHR ''?'', CHR ''*'']
           @ replicate 91 CHR ''b'') = 150
   \<and> sanitize_filename
        (replicate 50 CHR ''a''
         @ [CHR ''<'', CHR ''>'', CHR '':'', CHR 0x22, CHR ''/'', CHR 0x5C, CHR ''|'',
            CHR ''?'', CHR ''*'']
         @ replicate 91 CHR ''b'')
     = replicate 50 CHR ''a'' @ ''_________'' @ replicate 41 CHR ''b''
   \<and> length (sanitize_filename
        (replicate 50 CHR ''a''
         @ [CHR ''<'', CHR ''>'', CHR '':'', CHR 0x22, CHR ''/'', CHR 0x5C, CHR ''|'',
            CHR ''?'', CHR ''*'']
         @ replicate 91 CHR ''b'')) = 100"
  using sanitize_filename_spec
    [of "replicate 50 CHR ''a''
         @ [CHR ''<'', CHR ''>'', CHR '':'', CHR 0x22, CHR ''/'', CHR 0x5C, CHR ''|'',
            CHR ''?'', CHR ''*'']
         @ replicate 91 CHR ''b''"]
  by (simp add: replicate_add [symmetric] del: replicate_add)

subsection \<open>The handlers\<close>

lemma except_handler_returns: "\<exists>r. fst (except_handler prefix x) = Inr r"
  by (cases x) (auto simp: except_handler_def split: sum.splits)

lemma except_handler_raised:
  "except_handler prefix (Inl e, evs) =
     (Inr (Json 500 [(''error'', JStr (exn_str e))]), evs @ [LogError (prefix @ exn_str e)])"
  by (simp add: except_handler_def jsonify_error_def)

lemma except_handler_returned: "except_handler prefix (Inr r, evs) = (Inr r, evs)"
  by (simp add: except_handler_def)

lemma read_url_raises: "get_json request = Inl e \<Longrightarrow> read_url request = Inl (Inl e, [])"
  by (simp add: read_url_def)

lemma read_url_falsy:
  "get_json request = Inr data \<Longrightarrow> \<not> truthy data \<Longrightarrow>
   read_url request = Inl (Inr (Json 400 [(''error'', JStr ''No URL provided'')]), [])"
  by (simp add: read_url_def jsonify_error_def)

lemma read_url_no_key:
  assumes "get_json request = Inr (PyDict d)" and "map_of d ''url'' = None"
  shows "read_url request = Inl (Inr (Json 400 [(''error'', JStr ''No URL provided'')]), [])"
  using assms by (simp add: read_url_def jsonify_error_def)

lemma read_url_dict:
  assumes "get_json request = Inr (PyDict d)" and "map_of d ''url'' = Some v"
  shows "read_url request =
           (case method_strip v of Inl e \<Rightarrow> Inl (Inl e, []) | Inr url \<Rightarrow> Inr (PyDict d, url))"
proof -
  from assms(2) have "d \<noteq> []" by auto
  then show ?thesis using assms by (simp add: read_url_def)
qed

lemma read_url_valid:
  assumes "get_json request = Inr (PyDict d)" and "map_of d ''url'' = Some (PyStr u)"
  shows "read_url request = Inr (PyDict d, strip u)"
  using read_url_dict [OF assms] by (simp add: method_strip_def)

lemma read_url_Inr:
  assumes "read_url request = Inr (data, url)"
  shows "\<exists>d u. get_json request = Inr (PyDict d) \<and> data = PyDict d
           \<and> map_of d ''url'' = Some (PyStr u) \<and> url = strip u"
proof -
  from assms obtain dat where g: "get_json request = Inr dat"
    by (cases "get_json request") (auto simp: read_url_def)
  from assms g have t: "truthy dat"
    by (auto simp: read_url_def split: if_splits)
  from assms g t obtain present where p: "py_in ''url'' dat = Inr present"
    by (cases "py_in ''url'' dat") (auto simp: read_url_def)
  from assms g t p have pr: "present"
    by (auto simp: read_url_def split: if_splits)
  from assms g t p pr obtain v where v: "py_getitem dat ''url'' = Inr v"
    by (cases "py_getitem dat ''url''") (auto simp: read_url_def)
  from v obtain d where d: "dat = PyDict d"
    by (cases dat) auto
  from v d have m: "map_of d ''url'' = Some v"
    by (auto split: option.splits)
  from assms g t p pr v obtain u where u: "v = PyStr u"
    by (cases v) (auto simp: read_url_def method_strip_def)
  from assms g t p pr v u have "data = dat" "url = strip u"
    by (auto simp: read_url_def method_strip_def)
  with g d m u show ?thesis by blast
qed

lemma fetch_video_info_valid:
  assumes "get_json request = Inr (PyDict d)" and "map_of d ''url'' = Some (PyStr u)"
    and "strip u \<noteq> []"
  shows "fetch_video_info env request
         = except_handler ''Error fetching info: '' (fetch_try env (strip u))"
  using read_url_valid [OF assms(1,2)] assms(3) by (simp add: fetch_video_info_def)

lemma download_video_valid:
  assumes "get_json request = Inr (PyDict d)" and "map_of d ''url'' = Some (PyStr u)"
    and "strip u \<noteq> []"
  shows "download_video env request
         = except_handler ''Download error: ''
             (download_try env (strip u) (get_default (map_of d ''quality'') (PyStr ''720''))
                (download_ydl_opts (download_filepath env)
                   (get_default (map_of d ''quality'') (PyStr ''720''))))"
  using read_url_valid [OF assms(1,2)] assms(3)
  by (simp add: download_video_def method_get_def)

text \<open>
  A body that decodes to a false value (\<open>None\<close>, an empty object), an object without
  the key \<open>url\<close>, or an object whose \<open>url\<close> is a blank string is answered by both
  handlers with status 400 and a JSON body with the key \<open>error\<close>, without any effect: the
  extraction library is not called.
\<close>

lemma url_missing_400:
  assumes "get_json request = Inr data"
    and "\<not> truthy data
         \<or> (\<exists>d. data = PyDict d \<and> map_of d ''url'' = None)
         \<or> (\<exists>d u. data = PyDict d \<and> map_of d ''url'' = Some (PyStr u) \<and> strip u = [])"
  shows "\<exists>msg. msg \<in> {''No URL provided'', ''Empty URL provided''}
           \<and> fetch_video_info env request = (Inr (Json 400 [(''error'', JStr msg)]), [])
           \<and> download_video env request = (Inr (Json 400 [(''error'', JStr msg)]), [])"
proof -
  let ?no = "(Inr (Json 400 [(''error'', JStr ''No URL provided'')]), []) :: outcome"
  let ?empty = "(Inr (Json 400 [(''error'', JStr ''Empty URL provided'')]), []) :: outcome"
  from assms(2) consider "\<not> truthy data"
    | d where "data = PyDict d" "map_of d ''url'' = None"
    | d u where "data = PyDict d" "map_of d ''url'' = Some (PyStr u)" "strip u = []"
    by blast
  then show ?thesis
  proof cases
    case 1
    from read_url_falsy [OF assms(1) 1]
    have "fetch_video_info env request = ?no \<and> download_video env request = ?no"
      by (simp add: fetch_video_info_def download_video_def)
    then show ?thesis by blast
  next
    case 2
    from read_url_no_key [of request d] assms(1) 2
    have "fetch_video_info env request = ?no \<and> download_video env request = ?no"
      by (simp add: fetch_video_info_def download_video_def)
    then show ?thesis by blast
  next
    case 3
    from read_url_valid [of request d u] assms(1) 3
    have "fetch_video_info env request = ?empty \<and> download_video env request = ?empty"
      by (simp add: fetch_video_info_def download_video_def method_get_def jsonify_error_def)
    then show ?thesis by blast
  qed
qed

text \<open>
  C1. For a request without a body the handlers do not answer with status 400 and a JSON
  body with the key \<open>error\<close>: \<open>request.get_json()\<close> is called before the \<open>try\<close> and
  raises, \<open>UnsupportedMediaType\<close> when the content type is not JSON and \<open>BadRequest\<close> when
  the body is empty, so that in both handlers the exception leaves the handler and no JSON
  response is returned. A body that is a JSON number has no key \<open>url\<close> either, and there
  the test \<open>'url' not in data\<close> raises \<open>TypeError\<close>, which leaves the handler too.
\<close>

theorem absent_body_escapes:
  "fetch_video_info env \<lparr> is_json = False, json_body = None \<rparr> = (Inl UnsupportedMediaType, [])
   \<and> download_video env \<lparr> is_json = False, json_body = None \<rparr> = (Inl UnsupportedMediaType, [])
   \<and> fetch_video_info env \<lparr> is_json = True, json_body = None \<rparr> = (Inl BadRequest, [])
   \<and> download_video env \<lparr> is_json = True, json_body = None \<rparr> = (Inl BadRequest, [])
   \<and> fetch_video_info env \<lparr> is_json = True, json_body = Some (PyInt 5) \<rparr>
       = (Inl (Exception ''TypeError''
                (''argument of type '' @ [CHR 0x27] @ ''int'' @ [CHR 0x27] @ '' is not iterable'')),
          [])
   \<and> download_video env \<lparr> is_json = True, json_body = Some (PyInt 5) \<rparr>
       = (Inl (Exception ''TypeError''
                (''argument of type '' @ [CHR 0x27] @ ''int'' @ [CHR 0x27] @ '' is not iterable'')),
          [])
   \<and> (\<forall>status body.
         fst (fetch_video_info env \<lparr> is_json = False, json_body = None \<rparr>)
           \<noteq> Inr (Json status body)
       \<and> fst (download_video env \<lparr> is_json = False, json_body = None \<rparr>)
           \<noteq> Inr (Json status body)
       \<and> fst (fetch_video_info env \<lparr> is_json = True, json_body = None \<rparr>)
           \<noteq> Inr (Json status body)
       \<and> fst (download_video env \<lparr> is_json = True, json_body = None \<rparr>)
           \<noteq> Inr (Json status body))"
  by (simp add: fetch_video_info_def download_video_def read_url_def get_json_def)

text \<open>
  C2. For both handlers, on a request whose body is an object with a \<open>url\<close> string that
  is not empty after stripping: if the call into the extraction library raises an
  exception \<open>e\<close>, the handler responds with status 500 and the JSON body
  \<open>{error: str(e)}\<close>, after logging the error. The same holds in \<open>/api/download\<close> when
  the library's \<open>prepare_filename\<close> raises, when the metadata has no title (the
  \<open>KeyError\<close>), and when sending the file raises. Whatever the library does, the
  handler returns a response: no exception leaves it.
\<close>

theorem extraction_failure_500:
  assumes "get_json request = Inr (PyDict d)"
    and "map_of d ''url'' = Some (PyStr u)"
    and "strip u \<noteq> []"
    and "q = get_default (map_of d ''quality'') (PyStr ''720'')"
    and "opts = download_ydl_opts (download_filepath env) q"
  shows "(extract_info env fetch_ydl_opts (strip u) False = Inl e \<longrightarrow>
            fetch_video_info env request =
              (Inr (Json 500 [(''error'', JStr (exn_str e))]),
               [ExtractInfo fetch_ydl_opts (strip u) False,
                LogError (''Error fetching info: '' @ exn_str e)]))
       \<and> (extract_info env opts (strip u) True = Inl e \<longrightarrow>
            download_video env request =
              (Inr (Json 500 [(''error'', JStr (exn_str e))]),
               [ExtractInfo opts (strip u) True, LogError (''Download error: '' @ exn_str e)]))
       \<and> (extract_info env opts (strip u) True = Inr info
            \<and> prepare_filename env opts info = Inl e \<longrightarrow>
            download_video env request =
              (Inr (Json 500 [(''error'', JStr (exn_str e))]),
               [ExtractInfo opts (strip u) True, LogError (''Download error: '' @ exn_str e)]))
       \<and> (extract_info env opts (strip u) True = Inr info
            \<and> prepare_filename env opts info = Inr prepared \<and> title info = None \<longrightarrow>
            download_video env request =
              (Inr (Json 500 [(''error'', JStr (repr_str ''title''))]),
               [ExtractInfo opts (strip u) True,
                LogError (''Download error: '' @ repr_str ''title'')]))
       \<and> (extract_info env opts (strip u) True = Inr info
            \<and> prepare_filename env opts info = Inr prepared \<and> title info = Some t
            \<and> send_file_raises env
                 (if q = PyStr ''audio'' then rsplit_dot_first prepared @ ''.mp3'' else prepared)
               = Some e \<longrightarrow>
            fst (download_video env request) = Inr (Json 500 [(''error'', JStr (exn_str e))])
            \<and> last (snd (download_video env request))
                = LogError (''Download error: '' @ exn_str e))
       \<and> (\<exists>r. fst (fetch_video_info env request) = Inr r)
       \<and> (\<exists>r. fst (download_video env request) = Inr r)"
proof -
  have f: "fetch_video_info env request
         = except_handler ''Error fetching info: '' (fetch_try env (strip u))"
    using assms(1-3) by (rule fetch_video_info_valid)
  have g: "download_video env request
         = except_handler ''Download error: '' (download_try env (strip u) q opts)"
    using download_video_valid [OF assms(1-3)] assms(4,5) by simp
  have 1: "extract_info env fetch_ydl_opts (strip u) False = Inl e \<longrightarrow>
            fetch_video_info env request =
              (Inr (Json 500 [(''error'', JStr (exn_str e))]),
               [ExtractInfo fetch_ydl_opts (strip u) False,
                LogError (''Error fetching info: '' @ exn_str e)])"
    unfolding f by (simp add: fetch_try_def except_handler_raised)
  have 2: "extract_info env opts (strip u) True = Inl e \<longrightarrow>
            download_video env request =
              (Inr (Json 500 [(''error'', JStr (exn_str e))]),
               [ExtractInfo opts (strip u) True, LogError (''Download error: '' @ exn_str e)])"
    unfolding g by (simp add: download_try_def except_handler_raised)
  have 3: "extract_info env opts (strip u) True = Inr info
            \<and> prepare_filename env opts info = Inl e \<longrightarrow>
            download_video env request =
              (Inr (Json 500 [(''error'', JStr (exn_str e))]),
               [ExtractInfo opts (strip u) True, LogError (''Download error: '' @ exn_str e)])"
    unfolding g by (simp add: download_try_def except_handler_raised)
  have 4: "extract_info env opts (strip u) True = Inr info
            \<and> prepare_filename env opts info = Inr prepared \<and> title info = None \<longrightarrow>
            download_video env request =
              (Inr (Json 500 [(''error'', JStr (repr_str ''title''))]),
               [ExtractInfo opts (strip u) True,
                LogError (''Download error: '' @ repr_str ''title'')])"
    unfolding g by (simp add: download_try_def except_handler_raised)
  have 5: "extract_info env opts (strip u) True = Inr info
            \<and> prepare_filename env opts info = Inr prepared \<and> title info = Some t
            \<and> send_file_raises env
                 (if q = PyStr ''audio'' then rsplit_dot_first prepared @ ''.mp3'' else prepared)
               = Some e \<longrightarrow>
            fst (download_video env request) = Inr (Json 500 [(''error'', JStr (exn_str e))])
            \<and> last (snd (download_video env request))
                = LogError (''Download error: '' @ exn_str e)"
    unfolding g by (simp add: download_try_def except_handler_raised Let_def)
  have 6: "\<exists>r. fst (fetch_video_info env request) = Inr r"
    unfolding f by (rule except_handler_returns)
  have 7: "\<exists>r. fst (download_video env request) = Inr r"
    unfolding g by (rule except_handler_returns)
  from 1 2 3 4 5 6 7 show ?thesis by blast
qed

theorem extraction_failure_500_witness:
  "fetch_video_info failing_env example_request =
     (Inr (Json 500 [(''error'', JStr ''Unsupported URL'')]),
      [ExtractInfo fetch_ydl_opts ''http://x'' False,
       LogError ''Error fetching info: Unsupported URL''])
   \<and> download_video failing_env example_request =
     (Inr (Json 500 [(''error'', JStr ''Unsupported URL'')]),
      [ExtractInfo (download_ydl_opts (download_filepath failing_env) (PyStr ''720''))
         ''http://x'' True,
       LogError ''Download error: Unsupported URL''])
   \<and> download_video unprepared_env example_request =
     (Inr (Json 500 [(''error'', JStr ''bad template'')]),
      [ExtractInfo (download_ydl_opts (download_filepath unprepared_env) (PyStr ''720''))
         ''http://x'' True,
       LogError ''Download error: bad template''])
   \<and> download_video untitled_env example_request =
     (Inr (Json 500 [(''error'', JStr (repr_str ''title''))]),
      [ExtractInfo (download_ydl_opts (download_filepath untitled_env) (PyStr ''720''))
         ''http://x'' True,
       LogError (''Download error: '' @ repr_str ''title'')])
   \<and> fst (download_video unsent_env example_request) =
       Inr (Json 500 [(''error'', JStr ''No such file'')])"
proof -
  let ?d = "[(''url'', PyStr '' http://x '')]"
  have h1: "get_json example_request = Inr (PyDict ?d)"
    by (simp add: example_request_def json_request_def get_json_def)
  have h2: "map_of ?d ''url'' = Some (PyStr '' http://x '')" by simp
  have s: "strip '' http://x '' = ''http://x''" by (simp add: strip_def isspace_def)
  have h3: "strip '' http://x '' \<noteq> []" by (simp add: s)
  have q: "PyStr ''720'' = get_default (map_of ?d ''quality'') (PyStr ''720'')"
    by (simp add: get_default_def)
  note t = extraction_failure_500 [OF h1 h2 h3 q refl]
  let ?e = "Exception ''DownloadError'' ''Unsupported URL''"
  have a: "extract_info failing_env opts url dl = Inl ?e" for opts url dl
    by (simp add: failing_env_def example_env_def)
  from t [where env = failing_env and e = ?e] a s
  have 1: "fetch_video_info failing_env example_request =
     (Inr (Json 500 [(''error'', JStr ''Unsupported URL'')]),
      [ExtractInfo fetch_ydl_opts ''http://x'' False,
       LogError ''Error fetching info: Unsupported URL''])"
    and 2: "download_video failing_env example_request =
     (Inr (Json 500 [(''error'', JStr ''Unsupported URL'')]),
      [ExtractInfo (download_ydl_opts (download_filepath failing_env) (PyStr ''720''))
         ''http://x'' True,
       LogError ''Download error: Unsupported URL''])"
    by simp_all
  let ?v = "Exception ''ValueError'' ''bad template''"
  have b: "extract_info unprepared_env opts url dl = Inr example_info"
    "prepare_filename unprepared_env opts info = Inl ?v" for opts url dl info
    by (simp_all add: unprepared_env_def example_env_def)
  from t [where env = unprepared_env and info = example_info and e = ?v] b s
  have 3: "download_video unprepared_env example_request =
     (Inr (Json 500 [(''error'', JStr ''bad template'')]),
      [ExtractInfo (download_ydl_opts (download_filepath unprepared_env) (PyStr ''720''))
         ''http://x'' True,
       LogError ''Download error: bad template''])"
    by simp
  have c: "extract_info untitled_env opts url dl = Inr bare_info"
    "\<exists>p. prepare_filename untitled_env
           (download_ydl_opts (download_filepath untitled_env) (PyStr ''720'')) bare_info = Inr p"
    "title bare_info = None" for opts url dl
    by (simp_all add: untitled_env_def example_env_def bare_info_def download_ydl_opts_def)
  from c(2) obtain p where p: "prepare_filename untitled_env
           (download_ydl_opts (download_filepath untitled_env) (PyStr ''720'')) bare_info = Inr p"
    by blast
  from t [where env = untitled_env and info = bare_info and prepared = p] c(1,3) p s
  have 4: "download_video untitled_env example_request =
     (Inr (Json 500 [(''error'', JStr (repr_str ''title''))]),
      [ExtractInfo (download_ydl_opts (download_filepath untitled_env) (PyStr ''720''))
         ''http://x'' True,
       LogError (''Download error: '' @ repr_str ''title'')])"
    by simp
  let ?n = "Exception ''FileNotFoundError'' ''No such file''"
  have d: "extract_info unsent_env opts url dl = Inr example_info"
    "\<exists>p. prepare_filename unsent_env
           (download_ydl_opts (download_filepath unsent_env) (PyStr ''720'')) example_info
         = Inr p"
    "title example_info = Some ''Clip: part 1/2?''"
    "send_file_raises unsent_env path = Some ?n" for opts url dl path
    by (simp_all add: unsent_env_def example_env_def example_info_def download_ydl_opts_def)
  from d(2) obtain p' where p': "prepare_filename unsent_env
           (download_ydl_opts (download_filepath unsent_env) (PyStr ''720'')) example_info
         = Inr p'"
    by blast
  from t [where env = unsent_env and info = example_info and e = ?n and prepared = p'
      and t = "''Clip: part 1/2?''"] d(1,3,4) p' s
  have 5: "fst (download_video unsent_env example_request) =
       Inr (Json 500 [(''error'', JStr ''No such file'')])"
    by simp
  from 1 2 3 4 5 show ?thesis by blast
qed


lemma download_try_forward:
  assumes "extract_info env opts url True = Inr info"
    and "prepare_filename env opts info = Inr prepared"
    and "title info = Some t"
    and "path = (if q = PyStr ''audio'' then rsplit_dot_first prepared @ ''.mp3'' else prepared)"
    and "send_file_raises env path = None"
  shows "download_try env url q opts =
           (Inr (SendFile path True
                   (sanitize_filename t
                    @ (if q = PyStr ''audio'' then ''.mp3'' else ''_'' @ py_str q @ ''p.mp4''))
                   (if q = PyStr ''audio'' then ''audio/mpeg'' else ''video/mp4'')),
            [ExtractInfo opts url True, LogInfo (''Downloaded: '' @ t),
             StartCleanupThread path 60])"
  using assms
  by (simp add: download_try_def delayed_cleanup_def get_default_def Let_def)

lemma download_try_success:
  assumes "fst (download_try env url q opts) = Inr (SendFile path att name mime)"
  shows "\<exists>info t prepared.
           extract_info env opts url True = Inr info \<and> title info = Some t
         \<and> prepare_filename env opts info = Inr prepared
         \<and> att
         \<and> name = sanitize_filename t
                   @ (if q = PyStr ''audio'' then ''.mp3'' else ''_'' @ py_str q @ ''p.mp4'')
         \<and> mime = (if q = PyStr ''audio'' then ''audio/mpeg'' else ''video/mp4'')
         \<and> path = (if q = PyStr ''audio'' then rsplit_dot_first prepared @ ''.mp3'' else prepared)"
proof -
  from assms obtain info where i: "extract_info env opts url True = Inr info"
    by (cases "extract_info env opts url True") (simp_all add: download_try_def)
  from assms i obtain prepared where p: "prepare_filename env opts info = Inr prepared"
    by (cases "prepare_filename env opts info") (simp_all add: download_try_def)
  from assms i p obtain t where t: "title info = Some t"
    by (cases "title info") (simp_all add: download_try_def)
  let ?path = "if q = PyStr ''audio'' then rsplit_dot_first prepared @ ''.mp3'' else prepared"
  from assms i p t have s: "send_file_raises env ?path = None"
    by (cases "send_file_raises env ?path") (simp_all add: download_try_def Let_def)
  from download_try_forward [OF i p t refl s] assms
  have "att \<and> name = sanitize_filename t
                   @ (if q = PyStr ''audio'' then ''.mp3'' else ''_'' @ py_str q @ ''p.mp4'')
         \<and> mime = (if q = PyStr ''audio'' then ''audio/mpeg'' else ''video/mp4'')
         \<and> path = ?path"
    by simp
  with i p t show ?thesis by blast
qed

lemma except_handler_success:
  assumes "fst (except_handler prefix x) = Inr (SendFile path att name mime)"
  shows "except_handler prefix x = x"
proof (cases x)
  case (Pair r evs)
  show ?thesis
  proof (cases r)
    case (Inl e)
    with Pair assms show ?thesis by (simp add: except_handler_raised)
  next
    case (Inr resp)
    with Pair show ?thesis by (simp add: except_handler_returned)
  qed
qed

lemma read_url_Inl:
  assumes "read_url request = Inl ended"
  shows "(\<exists>e. ended = (Inl e, [])) \<or> ended = (Inr (Json 400 [(''error'', JStr ''No URL provided'')]), [])"
proof (cases "get_json request")
  case (Inl e)
  with assms show ?thesis by (auto simp: read_url_def)
next
  case (Inr data)
  show ?thesis
  proof (cases "truthy data")
    case False
    with assms Inr show ?thesis by (auto simp: read_url_def jsonify_error_def)
  next
    case True
    show ?thesis
    proof (cases "py_in ''url'' data")
      case (Inl e)
      with assms Inr True show ?thesis by (auto simp: read_url_def)
    next
      case present: (Inr b)
      show ?thesis
      proof (cases b)
        case False
        with assms Inr True present show ?thesis by (auto simp: read_url_def jsonify_error_def)
      next
        case b: True
        show ?thesis
        proof (cases "py_getitem data ''url''")
          case (Inl e)
          with assms Inr True present b show ?thesis by (auto simp: read_url_def)
        next
          case v: (Inr v)
          show ?thesis
          proof (cases "method_strip v")
            case (Inl e)
            with assms Inr True present b v show ?thesis by (auto simp: read_url_def)
          next
            case (Inr url)
            with assms \<open>get_json request = Inr data\<close> True present b v show ?thesis
              by (auto simp: read_url_def)
          qed
        qed
      qed
    qed
  qed
qed

lemma download_video_success:
  assumes "fst (download_video env request) = Inr (SendFile path att name mime)"
  shows "\<exists>d u. get_json request = Inr (PyDict d) \<and> map_of d ''url'' = Some (PyStr u)
          \<and> strip u \<noteq> []
          \<and> download_video env request
              = download_try env (strip u) (get_default (map_of d ''quality'') (PyStr ''720''))
                   (download_ydl_opts (download_filepath env)
                      (get_default (map_of d ''quality'') (PyStr ''720'')))"
proof (cases "read_url request")
  case (Inl ended)
  then have "download_video env request = ended" by (simp add: download_video_def)
  with read_url_Inl [OF Inl] assms show ?thesis by auto
next
  case (Inr p)
  obtain data url where p: "p = (data, url)" by (cases p)
  from read_url_Inr [of request data url] Inr p obtain d u where
    d: "get_json request = Inr (PyDict d)" "map_of d ''url'' = Some (PyStr u)" "url = strip u"
    by auto
  have ne: "strip u \<noteq> []"
  proof
    assume "strip u = []"
    with read_url_valid [OF d(1,2)] have "download_video env request
        = (Inr (jsonify_error ''Empty URL provided'' 400), [])"
      by (simp add: download_video_def method_get_def)
    with assms show False by (simp add: jsonify_error_def)
  qed
  note v = download_video_valid [OF d(1,2) ne, of env]
  from assms have "fst (except_handler ''Download error: ''
       (download_try env (strip u) (get_default (map_of d ''quality'') (PyStr ''720''))
                   (download_ydl_opts (download_filepath env)
                      (get_default (map_of d ''quality'') (PyStr ''720'')))))
     = Inr (SendFile path att name mime)"
    unfolding v .
  from except_handler_success [OF this] v
  have "download_video env request
         = download_try env (strip u) (get_default (map_of d ''quality'') (PyStr ''720''))
                   (download_ydl_opts (download_filepath env)
                      (get_default (map_of d ''quality'') (PyStr ''720'')))"
    by simp
  with d ne show ?thesis by blast
qed



lemma snd_download_try:
  "snd (download_try env url q opts) = [ExtractInfo opts url True]
   \<or> (\<exists>t path. snd (download_try env url q opts)
          = [ExtractInfo opts url True, LogInfo (''Downloaded: '' @ t),
             StartCleanupThread path 60])"
proof (cases "extract_info env opts url True")
  case (Inl e)
  then show ?thesis by (simp add: download_try_def)
next
  case (Inr info)
  show ?thesis
  proof (cases "prepare_filename env opts info")
    case (Inl e)
    with Inr show ?thesis by (simp add: download_try_def)
  next
    case p: (Inr prepared)
    show ?thesis
    proof (cases "title info")
      case None
      with Inr p show ?thesis by (simp add: download_try_def)
    next
      case (Some t)
      let ?path = "if q = PyStr ''audio'' then rsplit_dot_first prepared @ ''.mp3'' else prepared"
      have "snd (download_try env url q opts)
          = [ExtractInfo opts url True, LogInfo (''Downloaded: '' @ t),
             StartCleanupThread ?path 60]"
        using Inr p Some
        by (cases "send_file_raises env ?path")
           (simp_all add: download_try_def delayed_cleanup_def get_default_def Let_def)
      then show ?thesis by blast
    qed
  qed
qed

lemma snd_except_handler:
  "snd (except_handler prefix x) = snd x
   \<or> (\<exists>m. snd (except_handler prefix x) = snd x @ [LogError m])"
proof (cases x)
  case (Pair r evs)
  then show ?thesis
    by (cases r) (simp_all add: except_handler_raised except_handler_returned)
qed

text \<open>The effects of \<open>download_video\<close>: none, or the call into the library with the
  options of the request, then perhaps the log line and the start of the clean-up thread
  with the delay 60, then perhaps the error log line.\<close>

lemma snd_download_video:
  "snd (download_video env request) = []
   \<or> (\<exists>d u rest.
         get_json request = Inr (PyDict d) \<and> map_of d ''url'' = Some (PyStr u)
       \<and> strip u \<noteq> []
       \<and> snd (download_video env request)
           = ExtractInfo (download_ydl_opts (download_filepath env)
                            (get_default (map_of d ''quality'') (PyStr ''720'')))
               (strip u) True # rest
       \<and> (\<forall>ev \<in> set rest. (\<exists>m. ev = LogInfo m) \<or> (\<exists>m. ev = LogError m)
                            \<or> (\<exists>p. ev = StartCleanupThread p 60)))"
proof (cases "read_url request")
  case (Inl ended)
  then have "download_video env request = ended" by (simp add: download_video_def)
  with read_url_Inl [OF Inl] show ?thesis by auto
next
  case (Inr p)
  obtain data url where p: "p = (data, url)" by (cases p)
  from read_url_Inr [of request data url] Inr p obtain d u where
    d: "get_json request = Inr (PyDict d)" "map_of d ''url'' = Some (PyStr u)" "url = strip u"
    by auto
  show ?thesis
  proof (cases "strip u = []")
    case True
    with read_url_valid [OF d(1,2)] have "download_video env request
        = (Inr (jsonify_error ''Empty URL provided'' 400), [])"
      by (simp add: download_video_def method_get_def)
    then show ?thesis by simp
  next
    case False
    let ?q = "get_default (map_of d ''quality'') (PyStr ''720'')"
    let ?opts = "download_ydl_opts (download_filepath env) ?q"
    let ?x = "download_try env (strip u) ?q ?opts"
    note v = download_video_valid [OF d(1,2) False, of env]
    from snd_download_try [of env "strip u" ?q ?opts]
    have a: "\<exists>r. snd ?x = ExtractInfo ?opts (strip u) True # r
        \<and> (\<forall>ev \<in> set r. (\<exists>m. ev = LogInfo m) \<or> (\<exists>m. ev = LogError m)
                            \<or> (\<exists>p. ev = StartCleanupThread p 60))"
      by auto
    then obtain r where r: "snd ?x = ExtractInfo ?opts (strip u) True # r"
      "\<forall>ev \<in> set r. (\<exists>m. ev = LogInfo m) \<or> (\<exists>m. ev = LogError m)
                            \<or> (\<exists>p. ev = StartCleanupThread p 60)"
      by blast
    from snd_except_handler [of "''Download error: ''" ?x] r
    have "\<exists>rest. snd (except_handler ''Download error: '' ?x)
             = ExtractInfo ?opts (strip u) True # rest
        \<and> (\<forall>ev \<in> set rest. (\<exists>m. ev = LogInfo m) \<or> (\<exists>m. ev = LogError m)
                            \<or> (\<exists>p. ev = StartCleanupThread p 60))"
      by auto
    with v d False show ?thesis by auto
  qed
qed

lemma cleanup_cases:
  "cleanup env p n =
     (Inr (),
      if os_path_exists env p
      then (case os_remove env p of
              None \<Rightarrow> [Sleep n, OsRemove p]
            | Some e \<Rightarrow> [Sleep n, OsRemove p,
                         LogWarning (''Could not delete file '' @ p @ '': '' @ exn_str e)])
      else [Sleep n])"
  by (cases "os_remove env p") (simp_all add: cleanup_def cleanup_try_def)

lemma download_try_ignores_removal:
  "download_try (env \<lparr> os_path_exists := ex, os_remove := rm \<rparr>) url q opts
     = download_try env url q opts"
  by (simp add: download_try_def cong: sum.case_cong option.case_cong)

lemma fetch_try_ignores_removal:
  "fetch_try (env \<lparr> os_path_exists := ex, os_remove := rm \<rparr>) url = fetch_try env url"
  by (simp add: fetch_try_def)

lemma handlers_ignore_removal:
  "download_video (env \<lparr> os_path_exists := ex, os_remove := rm \<rparr>) request
     = download_video env request
   \<and> fetch_video_info (env \<lparr> os_path_exists := ex, os_remove := rm \<rparr>) request
     = fetch_video_info env request"
proof (cases "read_url request")
  case (Inl ended)
  then show ?thesis by (simp add: download_video_def fetch_video_info_def)
next
  case (Inr p)
  obtain data url where p: "p = (data, url)" by (cases p)
  have fp: "download_filepath (env \<lparr> os_path_exists := ex, os_remove := rm \<rparr>)
            = download_filepath env"
    by (simp add: download_filepath_def download_filename_def)
  show ?thesis
    using Inr p
    by (cases "method_get data ''quality'' (PyStr ''720'')")
       (simp_all add: download_video_def fetch_video_info_def download_try_ignores_removal
          fetch_try_ignores_removal fp)
qed

text \<open>
  C8. Every file response of \<open>/api/download\<close> comes with the start of the clean-up
  thread for the served path with the delay 60, as the last effect of the handler, and
  no clean-up thread is started with another delay; \<open>delayed_cleanup\<close> itself only starts
  the thread, with the delay 60 when none is given. The thread sleeps for the delay first;
  it never raises; it attempts the removal at most once, and only when the path exists; a
  removal that fails leaves exactly one warning in the log, \<open>Could not delete file\<close> with
  the path and the text of the exception, and nothing else. What the removal does has no
  influence on what either handler returns or does.
\<close>

theorem delayed_cleanup_spec:
  "(fst (download_video env request) = Inr (SendFile path att name mime) \<longrightarrow>
      (\<exists>evs. snd (download_video env request) = evs @ [StartCleanupThread path 60]))
   \<and> (StartCleanupThread p' n' \<in> set (snd (download_video env request)) \<longrightarrow> n' = 60)
   \<and> delayed_cleanup p None = [StartCleanupThread p 60]
   \<and> delayed_cleanup p (Some n) = [StartCleanupThread p n]
   \<and> fst (cleanup env p n) = Inr ()
   \<and> (\<exists>rest. snd (cleanup env p n) = Sleep n # rest \<and> removals rest \<le> 1
          \<and> length (filter (\<lambda>ev. \<exists>m. ev = LogWarning m) rest) \<le> 1)
   \<and> (os_path_exists env p \<and> os_remove env p = Some e \<longrightarrow>
        snd (cleanup env p n)
          = [Sleep n, OsRemove p,
             LogWarning (''Could not delete file '' @ p @ '': '' @ exn_str e)])
   \<and> (os_path_exists env p \<and> os_remove env p = None \<longrightarrow>
        snd (cleanup env p n) = [Sleep n, OsRemove p])
   \<and> (\<not> os_path_exists env p \<longrightarrow> snd (cleanup env p n) = [Sleep n])
   \<and> download_video (env \<lparr> os_path_exists := ex, os_remove := rm \<rparr>) request
       = download_video env request
   \<and> fetch_video_info (env \<lparr> os_path_exists := ex, os_remove := rm \<rparr>) request
       = fetch_video_info env request"
proof -
  have 1: "fst (download_video env request) = Inr (SendFile path att name mime) \<longrightarrow>
      (\<exists>evs. snd (download_video env request) = evs @ [StartCleanupThread path 60])"
  proof
    assume s: "fst (download_video env request) = Inr (SendFile path att name mime)"
    from download_video_success [OF s] obtain d u where
      d: "get_json request = Inr (PyDict d)" "map_of d ''url'' = Some (PyStr u)"
         "strip u \<noteq> []"
      and eq: "download_video env request
              = download_try env (strip u) (get_default (map_of d ''quality'') (PyStr ''720''))
                   (download_ydl_opts (download_filepath env)
                      (get_default (map_of d ''quality'') (PyStr ''720'')))"
      by blast
    let ?q = "get_default (map_of d ''quality'') (PyStr ''720'')"
    let ?opts = "download_ydl_opts (download_filepath env) ?q"
    from s eq have f: "fst (download_try env (strip u) ?q ?opts)
        = Inr (SendFile path att name mime)"
      by simp
    from download_try_success [OF f] obtain info t prepared where
      h: "extract_info env ?opts (strip u) True = Inr info" "title info = Some t"
         "prepare_filename env ?opts info = Inr prepared"
         "path = (if ?q = PyStr ''audio'' then rsplit_dot_first prepared @ ''.mp3''
                  else prepared)"
      by blast
    have "send_file_raises env path = None"
    proof (cases "send_file_raises env path")
      case None
      then show ?thesis .
    next
      case (Some e)
      with h f show ?thesis by (simp add: download_try_def Let_def)
    qed
    from download_try_forward [OF h(1) h(3) h(2) h(4) this] eq
    have "snd (download_video env request)
        = [ExtractInfo ?opts (strip u) True, LogInfo (''Downloaded: '' @ t)]
          @ [StartCleanupThread path 60]"
      by simp
    then show "\<exists>evs. snd (download_video env request) = evs @ [StartCleanupThread path 60]"
      by blast
  qed
  have 2: "StartCleanupThread p' n' \<in> set (snd (download_video env request)) \<longrightarrow> n' = 60"
    using snd_download_video [of env request] by auto
  have 3: "delayed_cleanup p None = [StartCleanupThread p 60]"
    "delayed_cleanup p (Some n) = [StartCleanupThread p n]"
    by (simp_all add: delayed_cleanup_def get_default_def)
  have 4: "fst (cleanup env p n) = Inr ()"
    by (simp add: cleanup_cases)
  have 5: "\<exists>rest. snd (cleanup env p n) = Sleep n # rest \<and> removals rest \<le> 1
          \<and> length (filter (\<lambda>ev. \<exists>m. ev = LogWarning m) rest) \<le> 1"
    by (cases "os_remove env p") (simp_all add: cleanup_cases removals_def)
  have 6: "os_path_exists env p \<and> os_remove env p = Some e \<longrightarrow>
        snd (cleanup env p n)
          = [Sleep n, OsRemove p,
             LogWarning (''Could not delete file '' @ p @ '': '' @ exn_str e)]"
    "os_path_exists env p \<and> os_remove env p = None \<longrightarrow>
        snd (cleanup env p n) = [Sleep n, OsRemove p]"
    "\<not> os_path_exists env p \<longrightarrow> snd (cleanup env p n) = [Sleep n]"
    by (simp_all add: cleanup_cases)
  note 7 = handlers_ignore_removal [where env = env and ex = ex and rm = rm and request = request]
  from 1 2 3 4 5 6 7 show ?thesis by blast
qed

theorem delayed_cleanup_spec_witness:
  "fst (download_video locked_env audio_request)
     = Inr (SendFile (download_filepath locked_env @ ''.mp3'') True ''Clip_ part 1_2_.mp3''
              ''audio/mpeg'')
   \<and> (\<exists>evs. snd (download_video locked_env audio_request)
          = evs @ [StartCleanupThread (download_filepath locked_env @ ''.mp3'') 60])
   \<and> StartCleanupThread (download_filepath locked_env @ ''.mp3'') 60
       \<in> set (snd (download_video locked_env audio_request))
   \<and> os_path_exists locked_env ''f.mp3''
   \<and> os_remove locked_env ''f.mp3'' = Some (Exception ''PermissionError'' ''WinError 32'')
   \<and> cleanup locked_env ''f.mp3'' 60
       = (Inr (), [Sleep 60, OsRemove ''f.mp3'',
                   LogWarning ''Could not delete file f.mp3: WinError 32''])
   \<and> os_remove example_env ''f.mp3'' = None
   \<and> cleanup example_env ''f.mp3'' 60 = (Inr (), [Sleep 60, OsRemove ''f.mp3''])
   \<and> cleanup (example_env \<lparr> os_path_exists := (\<lambda>path. False) \<rparr>) ''f.mp3'' 60
       = (Inr (), [Sleep 60])
   \<and> download_video locked_env audio_request = download_video example_env audio_request"
proof -
  let ?e = "Exception ''PermissionError'' ''WinError 32''"
  let ?gone = "example_env \<lparr> os_path_exists := (\<lambda>path. False) \<rparr>"
  have r: "fst (download_video locked_env audio_request)
     = Inr (SendFile (download_filepath locked_env @ ''.mp3'') True ''Clip_ part 1_2_.mp3''
              ''audio/mpeg'')"
    by code_simp
  note a = delayed_cleanup_spec [where env = locked_env and request = audio_request
      and path = "download_filepath locked_env @ ''.mp3''" and att = True
      and name = "''Clip_ part 1_2_.mp3''" and mime = "''audio/mpeg''"
      and p = "''f.mp3''" and n = 60 and e = ?e]
  from a r have 1: "\<exists>evs. snd (download_video locked_env audio_request)
          = evs @ [StartCleanupThread (download_filepath locked_env @ ''.mp3'') 60]"
    by blast
  then have 2: "StartCleanupThread (download_filepath locked_env @ ''.mp3'') 60
       \<in> set (snd (download_video locked_env audio_request))"
    by auto
  have l: "os_path_exists locked_env ''f.mp3''"
    "os_remove locked_env ''f.mp3'' = Some ?e"
    by (simp_all add: locked_env_def example_env_def)
  from a l have 3: "cleanup locked_env ''f.mp3'' 60
       = (Inr (), [Sleep 60, OsRemove ''f.mp3'',
                   LogWarning ''Could not delete file f.mp3: WinError 32''])"
    by (simp add: prod_eq_iff)
  note b = delayed_cleanup_spec [where env = example_env and p = "''f.mp3''" and n = 60]
  have m: "os_path_exists example_env ''f.mp3''" "os_remove example_env ''f.mp3'' = None"
    by (simp_all add: example_env_def)
  from b m have 4: "cleanup example_env ''f.mp3'' 60 = (Inr (), [Sleep 60, OsRemove ''f.mp3''])"
    by (simp add: prod_eq_iff)
  note c = delayed_cleanup_spec [where env = ?gone and p = "''f.mp3''" and n = 60]
  have "\<not> os_path_exists ?gone ''f.mp3''" by simp
  with c have 5: "cleanup ?gone ''f.mp3'' 60 = (Inr (), [Sleep 60])"
    by (simp add: prod_eq_iff)
  note d = delayed_cleanup_spec [where env = example_env and request = audio_request
      and ex = "os_path_exists example_env"
      and rm = "\<lambda>path. Some (Exception ''PermissionError'' ''WinError 32'')"]
  have "locked_env = example_env \<lparr> os_path_exists := os_path_exists example_env,
          os_remove := (\<lambda>path. Some (Exception ''PermissionError'' ''WinError 32'')) \<rparr>"
    by (simp add: locked_env_def)
  with d have 6: "download_video locked_env audio_request
      = download_video example_env audio_request"
    by simp
  from r 1 2 l 3 m(2) 4 5 6 show ?thesis by blast
qed

lemma map_of_snoc_other: "k \<noteq> k' \<Longrightarrow> map_of (d @ [(k', v)]) k = map_of d k"
  by (induction d) auto

lemma map_of_snoc_new: "map_of d k = None \<Longrightarrow> map_of (d @ [(k, v)]) k = Some v"
  by (induction d) (auto split: if_splits)

lemma get_json_json_request: "get_json (json_request v) = Inr v"
  by (simp add: json_request_def get_json_def)

lemma download_video_no_url:
  assumes "get_json request = Inr (PyDict d)" and "map_of d ''url'' = None"
  shows "download_video env request
         = (Inr (Json 400 [(''error'', JStr ''No URL provided'')]), [])"
  using read_url_no_key [OF assms] by (simp add: download_video_def)

lemma download_video_dict:
  assumes "get_json request = Inr (PyDict d)" and "map_of d ''url'' = Some v"
  shows "download_video env request =
     (case method_strip v of
        Inl e \<Rightarrow> (Inl e, [])
      | Inr url \<Rightarrow>
          if url = [] then (Inr (jsonify_error ''Empty URL provided'' 400), [])
          else except_handler ''Download error: ''
                 (download_try env url (get_default (map_of d ''quality'') (PyStr ''720''))
                    (download_ydl_opts (download_filepath env)
                       (get_default (map_of d ''quality'') (PyStr ''720'')))))"
  using read_url_dict [OF assms]
  by (cases "method_strip v") (simp_all add: download_video_def method_get_def)

text \<open>
  C10. A \<open>/api/download\<close> request whose JSON object has no \<open>quality\<close> key behaves as
  the request with \<open>quality\<close> added as \<open>720\<close>: the two give the same response and the same
  effects. With a \<open>url\<close> that is not blank the extraction library is called first, with
  options whose format selector is the height-bounded expression for 720; and when the
  library returns metadata with a title and a prepared file name and sending the file does
  not raise, the response is the attachment of that file with the MIME type
  \<open>video/mp4\<close> and the sanitized title followed by \<open>_720p.mp4\<close> as its name. No other
  options are ever passed to the library, and every file response has that MIME type and
  a name ending in \<open>_720p.mp4\<close>.
\<close>

theorem default_quality_720:
  assumes "get_json request = Inr (PyDict d)" and "map_of d ''quality'' = None"
    and "opts = download_ydl_opts (download_filepath env) (PyStr ''720'')"
  shows "download_video env request
           = download_video env (json_request (PyDict (d @ [(''quality'', PyStr ''720'')])))
       \<and> map_of opts ''format'' = Some (OStr ''best[height<=720]/best'')
       \<and> get_format_selector (PyStr ''720'') = ''best[height<=720]/best''
       \<and> (map_of d ''url'' = Some (PyStr u) \<and> strip u \<noteq> [] \<longrightarrow>
             (\<exists>rest. snd (download_video env request)
                       = ExtractInfo opts (strip u) True # rest))
       \<and> (map_of d ''url'' = Some (PyStr u) \<and> strip u \<noteq> []
            \<and> extract_info env opts (strip u) True = Inr info \<and> title info = Some t
            \<and> prepare_filename env opts info = Inr prepared
            \<and> send_file_raises env prepared = None \<longrightarrow>
             download_video env request
               = (Inr (SendFile prepared True (sanitize_filename t @ ''_720p.mp4'') ''video/mp4''),
                  [ExtractInfo opts (strip u) True, LogInfo (''Downloaded: '' @ t),
                   StartCleanupThread prepared 60]))
       \<and> (ExtractInfo opts' url dl \<in> set (snd (download_video env request)) \<longrightarrow>
             opts' = opts)
       \<and> (fst (download_video env request) = Inr (SendFile path att name mime) \<longrightarrow>
             mime = ''video/mp4'' \<and> (\<exists>stem. name = stem @ ''_720p.mp4''))"
proof -
  let ?d' = "d @ [(''quality'', PyStr ''720'')]"
  have q: "get_default (map_of d ''quality'') (PyStr ''720'') = PyStr ''720''"
    using assms(2) by (simp add: get_default_def)
  have q': "get_default (map_of ?d' ''quality'') (PyStr ''720'') = PyStr ''720''"
    using map_of_snoc_new [OF assms(2), of "PyStr ''720''"] by (simp add: get_default_def)
  have u': "map_of ?d' ''url'' = map_of d ''url''"
    by (rule map_of_snoc_other) simp
  have g': "get_json (json_request (PyDict ?d')) = Inr (PyDict ?d')"
    by (rule get_json_json_request)
  have 1: "download_video env request = download_video env (json_request (PyDict ?d'))"
  proof (cases "map_of d ''url''")
    case None
    with u' have "map_of ?d' ''url'' = None" by simp
    from download_video_no_url [OF assms(1) None] download_video_no_url [OF g' this]
    show ?thesis by simp
  next
    case (Some v)
    with u' have "map_of ?d' ''url'' = Some v" by simp
    from download_video_dict [OF assms(1) Some, of env] download_video_dict [OF g' this, of env]
    show ?thesis by (simp only: q q')
  qed
  have 2: "map_of opts ''format'' = Some (OStr ''best[height<=720]/best'')"
    "get_format_selector (PyStr ''720'') = ''best[height<=720]/best''"
    by (simp_all add: assms(3) download_ydl_opts_def get_format_selector_def)
  have v: "download_video env request
         = except_handler ''Download error: '' (download_try env (strip u) (PyStr ''720'') opts)"
    if "map_of d ''url'' = Some (PyStr u)" "strip u \<noteq> []"
    using download_video_valid [OF assms(1) that, of env] q assms(3) by simp
  have 3: "map_of d ''url'' = Some (PyStr u) \<and> strip u \<noteq> [] \<longrightarrow>
             (\<exists>rest. snd (download_video env request)
                       = ExtractInfo opts (strip u) True # rest)"
  proof
    assume h: "map_of d ''url'' = Some (PyStr u) \<and> strip u \<noteq> []"
    from snd_download_try [of env "strip u" "PyStr ''720''" opts]
      snd_except_handler [of "''Download error: ''"
        "download_try env (strip u) (PyStr ''720'') opts"]
    have "\<exists>rest. snd (except_handler ''Download error: ''
                     (download_try env (strip u) (PyStr ''720'') opts))
                 = ExtractInfo opts (strip u) True # rest"
      by auto
    with v h show "\<exists>rest. snd (download_video env request)
                       = ExtractInfo opts (strip u) True # rest"
      by simp
  qed
  have 4: "map_of d ''url'' = Some (PyStr u) \<and> strip u \<noteq> []
            \<and> extract_info env opts (strip u) True = Inr info \<and> title info = Some t
            \<and> prepare_filename env opts info = Inr prepared
            \<and> send_file_raises env prepared = None \<longrightarrow>
             download_video env request
               = (Inr (SendFile prepared True (sanitize_filename t @ ''_720p.mp4'') ''video/mp4''),
                  [ExtractInfo opts (strip u) True, LogInfo (''Downloaded: '' @ t),
                   StartCleanupThread prepared 60])"
  proof
    assume h: "map_of d ''url'' = Some (PyStr u) \<and> strip u \<noteq> []
            \<and> extract_info env opts (strip u) True = Inr info \<and> title info = Some t
            \<and> prepare_filename env opts info = Inr prepared
            \<and> send_file_raises env prepared = None"
    have "download_try env (strip u) (PyStr ''720'') opts
        = (Inr (SendFile prepared True
                   (sanitize_filename t
                    @ (if PyStr ''720'' = PyStr ''audio'' then ''.mp3''
                       else ''_'' @ py_str (PyStr ''720'') @ ''p.mp4''))
                   (if PyStr ''720'' = PyStr ''audio'' then ''audio/mpeg'' else ''video/mp4'')),
            [ExtractInfo opts (strip u) True, LogInfo (''Downloaded: '' @ t),
             StartCleanupThread prepared 60])"
    proof (rule download_try_forward)
      from h show "extract_info env opts (strip u) True = Inr info" by blast
      from h show "prepare_filename env opts info = Inr prepared" by blast
      from h show "title info = Some t" by blast
      show "prepared = (if PyStr ''720'' = PyStr ''audio''
                        then rsplit_dot_first prepared @ ''.mp3'' else prepared)"
        by simp
      from h show "send_file_raises env prepared = None" by blast
    qed
    then have "download_try env (strip u) (PyStr ''720'') opts
        = (Inr (SendFile prepared True (sanitize_filename t @ ''_720p.mp4'') ''video/mp4''),
            [ExtractInfo opts (strip u) True, LogInfo (''Downloaded: '' @ t),
             StartCleanupThread prepared 60])"
      by (simp add: py_str_def)
    with v h show "download_video env request
               = (Inr (SendFile prepared True (sanitize_filename t @ ''_720p.mp4'') ''video/mp4''),
                  [ExtractInfo opts (strip u) True, LogInfo (''Downloaded: '' @ t),
                   StartCleanupThread prepared 60])"
      by (simp add: except_handler_returned)
  qed
  have 5: "ExtractInfo opts' url dl \<in> set (snd (download_video env request)) \<longrightarrow> opts' = opts"
  proof
    assume a: "ExtractInfo opts' url dl \<in> set (snd (download_video env request))"
    from snd_download_video [of env request] a obtain d0 u0 rest where
      r: "get_json request = Inr (PyDict d0)"
         "snd (download_video env request)
           = ExtractInfo (download_ydl_opts (download_filepath env)
                            (get_default (map_of d0 ''quality'') (PyStr ''720'')))
               (strip u0) True # rest"
         "\<forall>ev \<in> set rest. (\<exists>m. ev = LogInfo m) \<or> (\<exists>m. ev = LogError m)
                            \<or> (\<exists>p. ev = StartCleanupThread p 60)"
      by auto
    from r(1) assms(1) have "d0 = d" by simp
    with r(2,3) a q assms(3) show "opts' = opts" by auto
  qed
  have 6: "fst (download_video env request) = Inr (SendFile path att name mime) \<longrightarrow>
             mime = ''video/mp4'' \<and> (\<exists>stem. name = stem @ ''_720p.mp4'')"
  proof
    assume s: "fst (download_video env request) = Inr (SendFile path att name mime)"
    from download_video_success [OF s] assms(1) q obtain u0 where
      "download_video env request
         = download_try env (strip u0) (PyStr ''720'')
             (download_ydl_opts (download_filepath env) (PyStr ''720''))"
      by auto
    with s have "fst (download_try env (strip u0) (PyStr ''720'')
             (download_ydl_opts (download_filepath env) (PyStr ''720'')))
       = Inr (SendFile path att name mime)"
      by simp
    from download_try_success [OF this] obtain t0 where
      "name = sanitize_filename t0 @ ''_'' @ py_str (PyStr ''720'') @ ''p.mp4''"
      "mime = ''video/mp4''"
      by auto
    then show "mime = ''video/mp4'' \<and> (\<exists>stem. name = stem @ ''_720p.mp4'')"
      by (simp add: py_str_def)
  qed
  from 1 2 3 4 5 6 show ?thesis by blast
qed

theorem default_quality_720_witness:
  "get_json example_request = Inr (PyDict [(''url'', PyStr '' http://x '')])
   \<and> map_of [(''url'', PyStr '' http://x '')] ''quality'' = None
   \<and> download_video example_env example_request
       = download_video example_env
           (json_request (PyDict ([(''url'', PyStr '' http://x '')]
                                  @ [(''quality'', PyStr ''720'')])))
   \<and> map_of (download_ydl_opts (download_filepath example_env) (PyStr ''720'')) ''format''
       = Some (OStr ''best[height<=720]/best'')
   \<and> download_video example_env example_request
       = (Inr (SendFile (download_filepath example_env @ ''.webm'') True
                 ''Clip_ part 1_2__720p.mp4'' ''video/mp4''),
          [ExtractInfo (download_ydl_opts (download_filepath example_env) (PyStr ''720''))
             ''http://x'' True,
           LogInfo ''Downloaded: Clip: part 1/2?'',
           StartCleanupThread (download_filepath example_env @ ''.webm'') 60])
   \<and> (\<exists>stem. ''Clip_ part 1_2__720p.mp4'' = stem @ ''_720p.mp4'')"
proof -
  let ?d = "[(''url'', PyStr '' http://x '')]"
  let ?fp = "download_filepath example_env"
  let ?opts = "download_ydl_opts ?fp (PyStr ''720'')"
  have g: "get_json example_request = Inr (PyDict ?d)"
    by (simp add: example_request_def json_request_def get_json_def)
  have h: "map_of ?d ''quality'' = None" by simp
  note inst = default_quality_720 [OF g h refl, where u = "'' http://x ''"
      and info = example_info and t = "''Clip: part 1/2?''" and prepared = "?fp @ ''.webm''"
      and path = "?fp @ ''.webm''" and att = True and name = "''Clip_ part 1_2__720p.mp4''"
      and mime = "''video/mp4''"]
  have u: "map_of ?d ''url'' = Some (PyStr '' http://x '')" by simp
  have s: "strip '' http://x '' = ''http://x''" by (simp add: strip_def isspace_def)
  have ne: "strip '' http://x '' \<noteq> []" by (simp add: s)
  have i: "extract_info example_env ?opts (strip '' http://x '') True = Inr example_info"
    by (simp add: example_env_def)
  have t: "title example_info = Some ''Clip: part 1/2?''"
    by (simp add: example_info_def)
  have p: "prepare_filename example_env ?opts example_info = Inr (?fp @ ''.webm'')"
    by (simp add: example_env_def download_ydl_opts_def)
  have sf: "send_file_raises example_env (?fp @ ''.webm'') = None"
    by (simp add: example_env_def)
  have nm: "sanitize_filename ''Clip: part 1/2?'' = ''Clip_ part 1_2_''"
    by code_simp
  from inst have 1: "download_video example_env example_request
       = download_video example_env
           (json_request (PyDict (?d @ [(''quality'', PyStr ''720'')])))"
    by blast
  from inst have 2: "map_of ?opts ''format'' = Some (OStr ''best[height<=720]/best'')"
    by blast
  from inst u ne i t p sf
  have "download_video example_env example_request
       = (Inr (SendFile (?fp @ ''.webm'') True
                 (sanitize_filename ''Clip: part 1/2?'' @ ''_720p.mp4'') ''video/mp4''),
          [ExtractInfo ?opts (strip '' http://x '') True,
           LogInfo (''Downloaded: '' @ ''Clip: part 1/2?''),
           StartCleanupThread (?fp @ ''.webm'') 60])"
    by blast
  then have 3: "download_video example_env example_request
       = (Inr (SendFile (?fp @ ''.webm'') True ''Clip_ part 1_2__720p.mp4'' ''video/mp4''),
          [ExtractInfo ?opts ''http://x'' True, LogInfo ''Downloaded: Clip: part 1/2?'',
           StartCleanupThread (?fp @ ''.webm'') 60])"
    by (simp add: nm s)
  then have "fst (download_video example_env example_request)
       = Inr (SendFile (?fp @ ''.webm'') True ''Clip_ part 1_2__720p.mp4'' ''video/mp4'')"
    by simp
  with inst have 4: "\<exists>stem. ''Clip_ part 1_2__720p.mp4'' = stem @ ''_720p.mp4''"
    by blast
  from g h 1 2 3 4 show ?thesis by blast
qed

end
